theory Spec2Isabelle
  imports Complex_Main
begin

section \<open>Domain model of the SGM simulator\<close>

text \<open>
  The embedding follows \<^verbatim>\<open>src/sgm_simulator.py\<close>, lines 38 to 396: the dataclasses
  become records, the three static methods of \<^verbatim>\<open>SGMEngine\<close> become functions.

  Numbers: in this first part a Python \<^verbatim>\<open>float\<close> is a \<^typ>\<open>real\<close>, so every sum,
  product, quotient and comparison is the exact one (no rounding, no infinities, no
  NaN); the part on double arithmetic further down rounds every operation. A Python
  \<^verbatim>\<open>int\<close> is an \<^typ>\<open>int\<close>. A raised exception is the left summand of the result.
\<close>

datatype error =
    ValueError string
  | TypeError string

subsection \<open>SGMRule\<close>

record SGMRule =
  name :: string
  growth_percentage :: real
  min_growth_dollars :: real
  enabled :: bool
  weekly_recalc_enabled :: bool
  weekly_recalc_day :: int
  validate_bounds :: bool

text \<open>
  \<^verbatim>\<open>SGMRule.__post_init__\<close>: the dataclass constructor stores the fields and then runs
  this check; the constructed rule is returned unless one of the three
  \<^verbatim>\<open>ValueError\<close>s is raised. The messages are the fixed part of the source's
  f-strings.
\<close>

definition SGMRule_post_init :: "SGMRule \<Rightarrow> error + SGMRule" where
  "SGMRule_post_init self =
    (if validate_bounds self
        \<and> \<not> (5 \<le> growth_percentage self \<and> growth_percentage self \<le> 50)
     then Inl (ValueError ''Growth percentage must be between 5% and 50% per PRD'')
     else if validate_bounds self \<and> min_growth_dollars self < 20
     then Inl (ValueError ''Minimum growth dollars must be at least $20 per PRD'')
     else if \<not> (0 \<le> weekly_recalc_day self \<and> weekly_recalc_day self \<le> 6)
     then Inl (ValueError ''Weekly recalculation day must be 0-6 (Monday-Sunday)'')
     else Inr self)"

subsection \<open>ManualAllowance\<close>

record ManualAllowance =
  amount :: real
  created_day :: int
  expiration_days :: "int option"
  reason :: string

definition is_expired :: "ManualAllowance \<Rightarrow> int \<Rightarrow> bool" where
  "is_expired self current_day =
    (case expiration_days self of
       None \<Rightarrow> False
     | Some e \<Rightarrow> current_day \<ge> created_day self + e)"

definition remaining_amount :: "ManualAllowance \<Rightarrow> int \<Rightarrow> real" where
  "remaining_amount self current_day =
    (if is_expired self current_day then 0 else amount self)"

subsection \<open>WalletConfig\<close>

record WalletConfig =
  model :: string
  custom_multiplier :: "real option"

text \<open>The dataclass defaults: \<^verbatim>\<open>WalletConfig()\<close>.\<close>

definition WalletConfig_default :: WalletConfig where
  "WalletConfig_default = \<lparr>model = ''daily_limit_2x'', custom_multiplier = None\<rparr>"

text \<open>
  \<^verbatim>\<open>self.model == "custom" and self.custom_multiplier\<close>: the multiplier is tested for
  truth, so \<^verbatim>\<open>None\<close> and \<^verbatim>\<open>0.0\<close> both fall through to the default of twice the limit.
\<close>

definition calculate_max_capacity :: "WalletConfig \<Rightarrow> real \<Rightarrow> real" where
  "calculate_max_capacity self daily_limit =
    (if model self = ''daily_limit_2x'' then daily_limit * 2
     else if model self = ''three_day_budget'' then daily_limit * 3
     else if model self = ''custom''
             \<and> (case custom_multiplier self of None \<Rightarrow> False | Some c \<Rightarrow> c \<noteq> 0)
     then (case custom_multiplier self of
             Some c \<Rightarrow> daily_limit * c
           | None \<Rightarrow> daily_limit * 2)
     else daily_limit * 2)"

subsection \<open>ReservedVolumesConfig\<close>

record ReservedVolumesConfig =
  monthly_volume :: real
  billing_day_start :: int
  days_in_cycle :: int

definition advance_billing_day :: "ReservedVolumesConfig \<Rightarrow> int \<Rightarrow> int" where
  "advance_billing_day self current_day =
    (let next_day = current_day + 1
     in if next_day > days_in_cycle self then 1 else next_day)"

subsection \<open>DayResult\<close>

record DayResult =
  day_index :: int
  billing_day :: int
  requested_spend :: real
  accepted_spend :: real
  rejected_spend :: real
  reserved_spend :: real
  sgm_spend :: real
  daily_spend_limit :: real
  wallet_balance_start :: real
  wallet_balance_end :: real
  wallet_max_capacity :: real
  intervention_type :: string
  reserved_remaining :: real
  cumulative_reserved_used :: real
  manual_allowances_used :: real
  expired_allowances :: real

section \<open>The engine\<close>

subsection \<open>calculate_daily_spend_limit\<close>

text \<open>
  \<^verbatim>\<open>xs[-n:]\<close> for a positive \<open>n\<close>: the last \<open>n\<close> entries, the whole list when it is
  shorter (the subtraction on \<^typ>\<open>nat\<close> stops at zero).
\<close>

definition last_n :: "nat \<Rightarrow> 'a list \<Rightarrow> 'a list" where
  "last_n n xs = drop (length xs - n) xs"

text \<open>
  The condition under which lines 185 to 189 set \<^verbatim>\<open>should_recalc\<close>. Python's
  \<^verbatim>\<open>%\<close> with the positive divisor 7 is the floored remainder, as \<open>mod\<close> on
  \<^typ>\<open>int\<close>.
\<close>

definition should_recalc :: "real list \<Rightarrow> SGMRule \<Rightarrow> int \<Rightarrow> int \<Rightarrow> bool" where
  "should_recalc accepted_history rule current_day_index last_recalc_day =
    (weekly_recalc_enabled rule \<and> length accepted_history \<ge> 7
     \<and> (let days_since_recalc = current_day_index - last_recalc_day;
             current_weekday = current_day_index mod 7
         in days_since_recalc \<ge> 7 \<and> current_weekday = weekly_recalc_day rule))"

text \<open>
  The rolling-window branch raises where the source does: for a negative base,
  \<^verbatim>\<open>(1 + g / 100) ** (1.0 / 7)\<close> is a \<^verbatim>\<open>complex\<close> in Python 3, and the
  \<^verbatim>\<open>max\<close> that follows compares it with a \<^verbatim>\<open>float\<close>, which is a
  \<^verbatim>\<open>TypeError\<close>. For a base that is zero or positive the power is the real
  seventh root, \<open>powr (1 / 7)\<close>.

  \<^verbatim>\<open>max(a, b, c)\<close> is \<open>max (max a b) c\<close>. The test
  \<^verbatim>\<open>rule.weekly_recalc_enabled and baseline_spend is not None\<close> is the case
  distinction on the baseline, taken as absent when the flag is off.
\<close>

definition calculate_daily_spend_limit ::
  "real list \<Rightarrow> SGMRule \<Rightarrow> int \<Rightarrow> int \<Rightarrow> real option
    \<Rightarrow> error + (real \<times> int \<times> real option)" where
  "calculate_daily_spend_limit accepted_history rule current_day_index
      last_recalc_day baseline_spend =
    (let recalc = should_recalc accepted_history rule current_day_index last_recalc_day;
         last_recalc_day' = (if recalc then current_day_index else last_recalc_day);
         baseline_spend' =
           (if recalc then Some (sum_list (last_n 7 accepted_history) / 7)
            else baseline_spend)
     in
       if length accepted_history < 7 then
         (if length accepted_history = 0 then
            Inr (min_growth_dollars rule / 7, last_recalc_day', baseline_spend')
          else
            (let days_elapsed = int (length accepted_history);
                 total_so_far = sum_list accepted_history;
                 days_remaining = 7 - days_elapsed;
                 needed_per_day =
                   (min_growth_dollars rule - total_so_far) / real_of_int days_remaining;
                 current_avg = total_so_far / real_of_int days_elapsed;
                 growth_based = current_avg * (1 + growth_percentage rule / 100);
                 daily_limit =
                   max (max needed_per_day growth_based) (min_growth_dollars rule / 7)
             in Inr (daily_limit, last_recalc_day', baseline_spend')))
       else
         (case (if weekly_recalc_enabled rule then baseline_spend' else None) of
            Some b \<Rightarrow>
              (let weekly_baseline = b * 7;
                   weekly_growth_limit =
                     max (min_growth_dollars rule)
                         (weekly_baseline * (1 + growth_percentage rule / 100));
                   daily_limit = weekly_growth_limit / 7
               in Inr (daily_limit, last_recalc_day', baseline_spend'))
          | None \<Rightarrow>
              (let recent_7 = sum_list (last_n 7 accepted_history);
                   recent_6 = sum_list (last_n 6 accepted_history)
               in
                 if 1 + growth_percentage rule / 100 < 0 then
                   Inl (TypeError ''> not supported between float and complex'')
                 else
                   (let growth_factor = (1 + growth_percentage rule / 100) powr (1 / 7);
                        exponential_limit = recent_7 * growth_factor - recent_6;
                        linear_limit = recent_7 + min_growth_dollars rule / 7 - recent_6;
                        daily_limit = max (max exponential_limit linear_limit) 0
                    in Inr (daily_limit, last_recalc_day', baseline_spend')))))"

subsection \<open>calculate_active_manual_allowances\<close>

text \<open>The loop, one allowance at a time, on the pair of running totals.\<close>

fun allowances_loop ::
  "ManualAllowance list \<Rightarrow> int \<Rightarrow> real \<times> real \<Rightarrow> real \<times> real" where
  "allowances_loop [] current_day (active_total, expired_total) =
     (active_total, expired_total)"
| "allowances_loop (allowance # rest) current_day (active_total, expired_total) =
     (if is_expired allowance current_day
      then allowances_loop rest current_day
             (active_total, expired_total + amount allowance)
      else allowances_loop rest current_day
             (active_total + remaining_amount allowance current_day, expired_total))"

definition calculate_active_manual_allowances ::
  "ManualAllowance list \<Rightarrow> int \<Rightarrow> real \<times> real" where
  "calculate_active_manual_allowances allowances current_day =
     allowances_loop allowances current_day (0, 0)"

subsection \<open>simulate_day\<close>

text \<open>
  The parameters \<^verbatim>\<open>day_index\<close>, \<^verbatim>\<open>billing_day\<close> and \<^verbatim>\<open>requested_spend\<close> and the
  locals that share a name with a field of \<open>DayResult\<close> carry a prime here.
  An absent optional argument is \<open>None\<close>. \<^verbatim>\<open>if reserved_config\<close> tests for
  \<^verbatim>\<open>None\<close> only, a dataclass instance being true.

  The only exception that can leave the function is the one of
  \<open>calculate_daily_spend_limit\<close>; everything before that call is free of effects.
\<close>

definition simulate_day ::
  "int \<Rightarrow> int \<Rightarrow> real \<Rightarrow> real \<Rightarrow> real list \<Rightarrow> SGMRule
    \<Rightarrow> WalletConfig option \<Rightarrow> ReservedVolumesConfig option \<Rightarrow> real
    \<Rightarrow> ManualAllowance list option \<Rightarrow> int \<Rightarrow> real option \<Rightarrow> real
    \<Rightarrow> error + (DayResult \<times> int \<times> real option)" where
  "simulate_day day_index' billing_day' requested_spend' wallet_balance accepted_history
      rule wallet_config reserved_config cumulative_reserved_used' manual_allowances
      last_recalc_day baseline_spend manual_allowance =
    (let wallet_config1 =
           (case wallet_config of None \<Rightarrow> WalletConfig_default | Some w \<Rightarrow> w);
         manual_allowances1 =
           (case manual_allowances of None \<Rightarrow> [] | Some xs \<Rightarrow> xs);
         manual_allowances2 =
           (if manual_allowance > 0
            then manual_allowances1 @
                   [\<lparr>amount = manual_allowance, created_day = day_index',
                     expiration_days = None, reason = ''Legacy compatibility''\<rparr>]
            else manual_allowances1);
         (reserved_spend', new_cumulative_reserved, reserved_remaining1) =
           (case reserved_config of
              None \<Rightarrow> (0, cumulative_reserved_used', 0)
            | Some c \<Rightarrow>
                if monthly_volume c > 0 then
                  (let cumulative0 =
                         (if billing_day' = 1 \<and> day_index' > 0 then 0
                          else cumulative_reserved_used');
                       reserved_available = max 0 (monthly_volume c - cumulative0);
                       spend = min requested_spend' reserved_available
                   in (spend, cumulative0 + spend, reserved_available))
                else (0, cumulative_reserved_used', 0));
         remaining_spend = requested_spend' - reserved_spend'
     in
       case calculate_daily_spend_limit accepted_history rule day_index'
              last_recalc_day baseline_spend of
         Inl e \<Rightarrow> Inl e
       | Inr (daily_limit, updated_last_recalc_day, updated_baseline) \<Rightarrow>
           (let max_wallet_capacity = calculate_max_capacity wallet_config1 daily_limit;
                wallet_start = min wallet_balance max_wallet_capacity;
                (active_allowances, expired_allowances') =
                  calculate_active_manual_allowances manual_allowances2 day_index';
                base_sgm_capacity = min (wallet_start + daily_limit) max_wallet_capacity;
                wallet_available = base_sgm_capacity + active_allowances;
                sgm_spend' = min remaining_spend wallet_available;
                sgm_from_wallet = min sgm_spend' base_sgm_capacity;
                sgm_from_manual = sgm_spend' - sgm_from_wallet;
                wallet_end = base_sgm_capacity - sgm_from_wallet;
                total_accepted = reserved_spend' + sgm_spend';
                total_rejected = requested_spend' - total_accepted;
                intervention =
                  (if remaining_spend > 0 \<and> sgm_spend' < remaining_spend then
                     (let sgm_rejection_rate =
                            (remaining_spend - sgm_spend') / remaining_spend
                      in if sgm_rejection_rate \<ge> 9 / 10 then ''shutdown''
                         else if sgm_rejection_rate > 0 then ''throttle''
                         else ''none'')
                   else ''none'');
                reserved_remaining' =
                  (case reserved_config of
                     None \<Rightarrow> reserved_remaining1
                   | Some c \<Rightarrow> max 0 (monthly_volume c - new_cumulative_reserved))
            in Inr (\<lparr>day_index = day_index',
                     billing_day = billing_day',
                     requested_spend = requested_spend',
                     accepted_spend = total_accepted,
                     rejected_spend = total_rejected,
                     reserved_spend = reserved_spend',
                     sgm_spend = sgm_spend',
                     daily_spend_limit = daily_limit,
                     wallet_balance_start = wallet_start,
                     wallet_balance_end = wallet_end,
                     wallet_max_capacity = max_wallet_capacity,
                     intervention_type = intervention,
                     reserved_remaining = reserved_remaining',
                     cumulative_reserved_used = new_cumulative_reserved,
                     manual_allowances_used = sgm_from_manual,
                     expired_allowances = expired_allowances'\<rparr>,
                    updated_last_recalc_day, updated_baseline)))"

section \<open>The engine in double arithmetic\<close>

text \<open>
  The definitions above compute with exact reals. Where a statement turns on the last
  digit of a result (a comparison with a threshold, a bound that is met with equality),
  the doubles of the source have to be followed operation by operation. The functions of
  this section are the same code with every floating-point operation rounded.

  A double is the real number it denotes. \<open>rnd\<close> rounds the exact result of one
  operation (\<^verbatim>\<open>+\<close>, \<^verbatim>\<open>-\<close>, \<^verbatim>\<open>*\<close>, \<^verbatim>\<open>/\<close>, or a decimal literal) to a double.
  \<open>fsum\<close> is the built-in \<^verbatim>\<open>sum\<close> on a list of doubles and \<open>fpow\<close> is \<^verbatim>\<open>**\<close> on
  doubles: both are library routines whose rounding depends on the Python version and
  the platform, so they are left open. \<^verbatim>\<open>min\<close>, \<^verbatim>\<open>max\<close> and the comparisons are
  exact, and so is the integer arithmetic of the day counters.
\<close>

record float_arith =
  rnd :: "real \<Rightarrow> real"
  fsum :: "real list \<Rightarrow> real"
  fpow :: "real \<Rightarrow> real \<Rightarrow> real"

text \<open>Exact arithmetic: nothing is rounded.\<close>

definition exact_arith :: float_arith where
  "exact_arith = \<lparr>rnd = (\<lambda>x. x), fsum = sum_list, fpow = (\<lambda>x y. x powr y)\<rparr>"

text \<open>
  IEEE 754 binary64 with rounding to nearest, ties to even: a number other than zero
  is rounded to a multiple of \<open>2 ^ (e - 52)\<close>, where \<open>2 ^ e\<close> is the largest power of two
  not above its magnitude. The exponent range is not bounded here: there is no
  overflow to infinity and no gradual underflow.
\<close>

definition round_half_even :: "real \<Rightarrow> int" where
  "round_half_even z =
    (let f = \<lfloor>z\<rfloor>; r = z - of_int f
     in if r < 1 / 2 then f else if 1 / 2 < r then f + 1
        else if even f then f else f + 1)"

definition double_round :: "real \<Rightarrow> real" where
  "double_round x =
    (if x = 0 then 0
     else let u = 2 powr of_int (\<lfloor>log 2 \<bar>x\<bar>\<rfloor> - 52)
          in of_int (round_half_even (x / u)) * u)"

text \<open>
  Doubles with \<^verbatim>\<open>sum\<close> adding from left to right and \<^verbatim>\<open>**\<close> correctly rounded: one
  possible platform.
\<close>

definition double_arith :: float_arith where
  "double_arith =
     \<lparr>rnd = double_round,
      fsum = foldl (\<lambda>acc x. double_round (acc + x)) 0,
      fpow = (\<lambda>x y. double_round (x powr y))\<rparr>"

subsection \<open>calculate_max_capacity\<close>

definition calculate_max_capacity_fl :: "float_arith \<Rightarrow> WalletConfig \<Rightarrow> real \<Rightarrow> real" where
  "calculate_max_capacity_fl A self daily_limit =
    (if model self = ''daily_limit_2x'' then rnd A (daily_limit * 2)
     else if model self = ''three_day_budget'' then rnd A (daily_limit * 3)
     else if model self = ''custom''
             \<and> (case custom_multiplier self of None \<Rightarrow> False | Some c \<Rightarrow> c \<noteq> 0)
     then (case custom_multiplier self of
             Some c \<Rightarrow> rnd A (daily_limit * c)
           | None \<Rightarrow> rnd A (daily_limit * 2))
     else rnd A (daily_limit * 2))"

subsection \<open>calculate_daily_spend_limit\<close>

definition calculate_daily_spend_limit_fl ::
  "float_arith \<Rightarrow> real list \<Rightarrow> SGMRule \<Rightarrow> int \<Rightarrow> int \<Rightarrow> real option
    \<Rightarrow> error + (real \<times> int \<times> real option)" where
  "calculate_daily_spend_limit_fl A accepted_history rule current_day_index
      last_recalc_day baseline_spend =
    (let recalc = should_recalc accepted_history rule current_day_index last_recalc_day;
         last_recalc_day' = (if recalc then current_day_index else last_recalc_day);
         baseline_spend' =
           (if recalc then Some (rnd A (fsum A (last_n 7 accepted_history) / 7))
            else baseline_spend)
     in
       if length accepted_history < 7 then
         (if length accepted_history = 0 then
            Inr (rnd A (min_growth_dollars rule / 7), last_recalc_day', baseline_spend')
          else
            (let days_elapsed = int (length accepted_history);
                 total_so_far = fsum A accepted_history;
                 days_remaining = 7 - days_elapsed;
                 needed_per_day =
                   rnd A (rnd A (min_growth_dollars rule - total_so_far)
                          / real_of_int days_remaining);
                 current_avg = rnd A (total_so_far / real_of_int days_elapsed);
                 growth_based =
                   rnd A (current_avg * rnd A (1 + rnd A (growth_percentage rule / 100)));
                 daily_limit =
                   max (max needed_per_day growth_based)
                       (rnd A (min_growth_dollars rule / 7))
             in Inr (daily_limit, last_recalc_day', baseline_spend')))
       else
         (case (if weekly_recalc_enabled rule then baseline_spend' else None) of
            Some b \<Rightarrow>
              (let weekly_baseline = rnd A (b * 7);
                   weekly_growth_limit =
                     max (min_growth_dollars rule)
                         (rnd A (weekly_baseline
                                 * rnd A (1 + rnd A (growth_percentage rule / 100))));
                   daily_limit = rnd A (weekly_growth_limit / 7)
               in Inr (daily_limit, last_recalc_day', baseline_spend'))
          | None \<Rightarrow>
              (let recent_7 = fsum A (last_n 7 accepted_history);
                   recent_6 = fsum A (last_n 6 accepted_history);
                   base = rnd A (1 + rnd A (growth_percentage rule / 100))
               in
                 if base < 0 then
                   Inl (TypeError ''> not supported between float and complex'')
                 else
                   (let growth_factor = fpow A base (rnd A (1 / 7));
                        exponential_limit = rnd A (rnd A (recent_7 * growth_factor) - recent_6);
                        linear_limit =
                          rnd A (rnd A (recent_7 + rnd A (min_growth_dollars rule / 7))
                                 - recent_6);
                        daily_limit = max (max exponential_limit linear_limit) 0
                    in Inr (daily_limit, last_recalc_day', baseline_spend')))))"

subsection \<open>calculate_active_manual_allowances\<close>

fun allowances_loop_fl ::
  "float_arith \<Rightarrow> ManualAllowance list \<Rightarrow> int \<Rightarrow> real \<times> real \<Rightarrow> real \<times> real" where
  "allowances_loop_fl A [] current_day (active_total, expired_total) =
     (active_total, expired_total)"
| "allowances_loop_fl A (allowance # rest) current_day (active_total, expired_total) =
     (if is_expired allowance current_day
      then allowances_loop_fl A rest current_day
             (active_total, rnd A (expired_total + amount allowance))
      else allowances_loop_fl A rest current_day
             (rnd A (active_total + remaining_amount allowance current_day),
              expired_total))"

definition calculate_active_manual_allowances_fl ::
  "float_arith \<Rightarrow> ManualAllowance list \<Rightarrow> int \<Rightarrow> real \<times> real" where
  "calculate_active_manual_allowances_fl A allowances current_day =
     allowances_loop_fl A allowances current_day (0, 0)"

subsection \<open>simulate_day\<close>

text \<open>The literal \<^verbatim>\<open>0.9\<close> is the double nearest to 9 / 10.\<close>

definition simulate_day_fl ::
  "float_arith \<Rightarrow> int \<Rightarrow> int \<Rightarrow> real \<Rightarrow> real \<Rightarrow> real list \<Rightarrow> SGMRule
    \<Rightarrow> WalletConfig option \<Rightarrow> ReservedVolumesConfig option \<Rightarrow> real
    \<Rightarrow> ManualAllowance list option \<Rightarrow> int \<Rightarrow> real option \<Rightarrow> real
    \<Rightarrow> error + (DayResult \<times> int \<times> real option)" where
  "simulate_day_fl A day_index' billing_day' requested_spend' wallet_balance
      accepted_history rule wallet_config reserved_config cumulative_reserved_used'
      manual_allowances last_recalc_day baseline_spend manual_allowance =
    (let wallet_config1 =
           (case wallet_config of None \<Rightarrow> WalletConfig_default | Some w \<Rightarrow> w);
         manual_allowances1 =
           (case manual_allowances of None \<Rightarrow> [] | Some xs \<Rightarrow> xs);
         manual_allowances2 =
           (if manual_allowance > 0
            then manual_allowances1 @
                   [\<lparr>amount = manual_allowance, created_day = day_index',
                     expiration_days = None, reason = ''Legacy compatibility''\<rparr>]
            else manual_allowances1);
         (reserved_spend', new_cumulative_reserved, reserved_remaining1) =
           (case reserved_config of
              None \<Rightarrow> (0, cumulative_reserved_used', 0)
            | Some c \<Rightarrow>
                if monthly_volume c > 0 then
                  (let cumulative0 =
                         (if billing_day' = 1 \<and> day_index' > 0 then 0
                          else cumulative_reserved_used');
                       reserved_available =
                         max 0 (rnd A (monthly_volume c - cumulative0));
                       spend = min requested_spend' reserved_available
                   in (spend, rnd A (cumulative0 + spend), reserved_available))
                else (0, cumulative_reserved_used', 0));
         remaining_spend = rnd A (requested_spend' - reserved_spend')
     in
       case calculate_daily_spend_limit_fl A accepted_history rule day_index'
              last_recalc_day baseline_spend of
         Inl e \<Rightarrow> Inl e
       | Inr (daily_limit, updated_last_recalc_day, updated_baseline) \<Rightarrow>
           (let max_wallet_capacity =
                  calculate_max_capacity_fl A wallet_config1 daily_limit;
                wallet_start = min wallet_balance max_wallet_capacity;
                (active_allowances, expired_allowances') =
                  calculate_active_manual_allowances_fl A manual_allowances2 day_index';
                base_sgm_capacity =
                  min (rnd A (wallet_start + daily_limit)) max_wallet_capacity;
                wallet_available = rnd A (base_sgm_capacity + active_allowances);
                sgm_spend' = min remaining_spend wallet_available;
                sgm_from_wallet = min sgm_spend' base_sgm_capacity;
                sgm_from_manual = rnd A (sgm_spend' - sgm_from_wallet);
                wallet_end = rnd A (base_sgm_capacity - sgm_from_wallet);
                total_accepted = rnd A (reserved_spend' + sgm_spend');
                total_rejected = rnd A (requested_spend' - total_accepted);
                intervention =
                  (if remaining_spend > 0 \<and> sgm_spend' < remaining_spend then
                     (let sgm_rejection_rate =
                            rnd A (rnd A (remaining_spend - sgm_spend') / remaining_spend)
                      in if sgm_rejection_rate \<ge> rnd A (9 / 10) then ''shutdown''
                         else if sgm_rejection_rate > 0 then ''throttle''
                         else ''none'')
                   else ''none'');
                reserved_remaining' =
                  (case reserved_config of
                     None \<Rightarrow> reserved_remaining1
                   | Some c \<Rightarrow>
                       max 0 (rnd A (monthly_volume c - new_cumulative_reserved)))
            in Inr (\<lparr>day_index = day_index',
                     billing_day = billing_day',
                     requested_spend = requested_spend',
                     accepted_spend = total_accepted,
                     rejected_spend = total_rejected,
                     reserved_spend = reserved_spend',
                     sgm_spend = sgm_spend',
                     daily_spend_limit = daily_limit,
                     wallet_balance_start = wallet_start,
                     wallet_balance_end = wallet_end,
                     wallet_max_capacity = max_wallet_capacity,
                     intervention_type = intervention,
                     reserved_remaining = reserved_remaining',
                     cumulative_reserved_used = new_cumulative_reserved,
                     manual_allowances_used = sgm_from_manual,
                     expired_allowances = expired_allowances'\<rparr>,
                    updated_last_recalc_day, updated_baseline)))"

text \<open>
  The quantities the intervention rule is stated in, as the source computes them from
  the fields of a result: the part of the request left after the reserved volume, and
  the share of it that was rejected.
\<close>

definition non_reserved_remainder :: "float_arith \<Rightarrow> DayResult \<Rightarrow> real" where
  "non_reserved_remainder A r = rnd A (requested_spend r - reserved_spend r)"

definition rejection_rate :: "float_arith \<Rightarrow> DayResult \<Rightarrow> real" where
  "rejection_rate A r =
     rnd A (rnd A (non_reserved_remainder A r - sgm_spend r) / non_reserved_remainder A r)"

section \<open>Concrete inputs\<close>

text \<open>
  The rule of the test suite (growth 20, minimum 20, validated), the same rule with
  weekly recalculation on Mondays, and rules built with \<^verbatim>\<open>validate_bounds=False\<close>.
\<close>

definition test_rule :: SGMRule where
  "test_rule = \<lparr>name = ''Test Rule'', growth_percentage = 20, min_growth_dollars = 20,
     enabled = True, weekly_recalc_enabled = False, weekly_recalc_day = 0,
     validate_bounds = True\<rparr>"

definition weekly_rule :: SGMRule where
  "weekly_rule = \<lparr>name = ''Weekly Rule'', growth_percentage = 20, min_growth_dollars = 20,
     enabled = True, weekly_recalc_enabled = True, weekly_recalc_day = 0,
     validate_bounds = True\<rparr>"

definition bypass_rule :: SGMRule where
  "bypass_rule = \<lparr>name = ''Test Rule'', growth_percentage = 0, min_growth_dollars = 5,
     enabled = True, weekly_recalc_enabled = False, weekly_recalc_day = 0,
     validate_bounds = False\<rparr>"

definition bypass_rule_day7 :: SGMRule where
  "bypass_rule_day7 = \<lparr>name = ''Test Rule'', growth_percentage = 20,
     min_growth_dollars = 20, enabled = True, weekly_recalc_enabled = True,
     weekly_recalc_day = 7, validate_bounds = False\<rparr>"

definition bypass_rule_minus200 :: SGMRule where
  "bypass_rule_minus200 = \<lparr>name = ''Test Rule'', growth_percentage = - 200,
     min_growth_dollars = 20, enabled = True, weekly_recalc_enabled = False,
     weekly_recalc_day = 0, validate_bounds = False\<rparr>"

definition override_allowance :: ManualAllowance where
  "override_allowance =
     \<lparr>amount = 10, created_day = 0, expiration_days = None, reason = ''Override''\<rparr>"

definition expiring_allowance :: ManualAllowance where
  "expiring_allowance =
     \<lparr>amount = 50, created_day = 5, expiration_days = Some 3, reason = ''Launch''\<rparr>"

definition negative_custom_wallet :: WalletConfig where
  "negative_custom_wallet = \<lparr>model = ''custom'', custom_multiplier = Some (- 1)\<rparr>"

text \<open>Day 0, a request of 100, an empty wallet and one manual allowance of 10.\<close>

definition day_with_override :: "error + (DayResult \<times> int \<times> real option)" where
  "day_with_override =
     simulate_day 0 1 100 0 [] test_rule None None 0 (Some [override_allowance]) 0 None 0"

text \<open>Day 0, no request, an empty wallet and a custom capacity multiplier of -1.\<close>

definition day_with_negative_capacity :: "error + (DayResult \<times> int \<times> real option)" where
  "day_with_negative_capacity =
     simulate_day 0 1 0 0 [] test_rule (Some negative_custom_wallet) None 0 None 0 None 0"

definition rule_min21 :: SGMRule where
  "rule_min21 = \<lparr>name = ''Test Rule'', growth_percentage = 20, min_growth_dollars = 21,
     enabled = True, weekly_recalc_enabled = False, weekly_recalc_day = 0,
     validate_bounds = True\<rparr>"

text \<open>The doubles that the literals \<^verbatim>\<open>506.32\<close> and \<^verbatim>\<open>47.47\<close> denote.\<close>

definition double_506_32 :: real where
  "double_506_32 = double_round (50632 / 100)"

definition double_47_47 :: real where
  "double_47_47 = double_round (4747 / 100)"

definition reserved_506 :: ReservedVolumesConfig where
  "reserved_506 =
     \<lparr>monthly_volume = double_506_32, billing_day_start = 10, days_in_cycle = 30\<rparr>"

text \<open>
  Day 2, billing day 12, in doubles: a monthly volume of 506.32 of which 47.47 is used,
  and a request of 1000.
\<close>

definition day_over_quota :: "error + (DayResult \<times> int \<times> real option)" where
  "day_over_quota =
     simulate_day_fl double_arith 2 12 1000 0 [50, 50] test_rule None (Some reserved_506)
       double_47_47 None 0 None 0"

text \<open>
  Day 0 in doubles: a daily limit of 21 / 7 = 3 and a request of 29.999999999999996,
  the double just below 30.
\<close>

definition day_at_threshold :: "error + (DayResult \<times> int \<times> real option)" where
  "day_at_threshold =
     simulate_day_fl double_arith 0 1 (8444249301319679 / 281474976710656) 0 []
       rule_min21 None None 0 None 0 None 0"

section \<open>Rule construction\<close>

text \<open>
  Claim C2, as amended. Construction raises exactly when the bounds are validated and
  the growth percentage is outside [5, 50] or the minimum is below 20, or when the
  weekday is outside [0, 6]; the weekday is checked whether or not validation is
  bypassed. Otherwise the rule comes back as it was given. With the bypass, every
  growth percentage and every minimum is accepted, and construction succeeds exactly
  when the weekday is in [0, 6].
\<close>

theorem post_init_raises_iff:
  "(isl (SGMRule_post_init r) \<longleftrightarrow>
      (validate_bounds r \<and> (growth_percentage r < 5 \<or> 50 < growth_percentage r
         \<or> min_growth_dollars r < 20))
      \<or> weekly_recalc_day r < 0 \<or> 6 < weekly_recalc_day r)
   \<and> (\<not> isl (SGMRule_post_init r) \<longrightarrow> SGMRule_post_init r = Inr r)
   \<and> (\<not> validate_bounds r \<longrightarrow>
        (SGMRule_post_init r = Inr r
           \<longleftrightarrow> 0 \<le> weekly_recalc_day r \<and> weekly_recalc_day r \<le> 6))"
  by (auto simp: SGMRule_post_init_def)

theorem post_init_raises_iff_witness:
  "\<not> validate_bounds bypass_rule \<and> SGMRule_post_init bypass_rule = Inr bypass_rule"
proof -
  have v: "\<not> validate_bounds bypass_rule"
    by (simp add: bypass_rule_def)
  have w: "0 \<le> weekly_recalc_day bypass_rule \<and> weekly_recalc_day bypass_rule \<le> 6"
    by (simp add: bypass_rule_def)
  show ?thesis using post_init_raises_iff [of bypass_rule] v w by blast
qed

text \<open>
  The claim as written fails: with the bypass requested and the weekday 7,
  construction raises.
\<close>

theorem bypass_keeps_weekday_check_counterexample:
  "\<not> validate_bounds bypass_rule_day7
   \<and> SGMRule_post_init bypass_rule_day7 =
       Inl (ValueError ''Weekly recalculation day must be 0-6 (Monday-Sunday)'')"
  by (simp add: SGMRule_post_init_def bypass_rule_day7_def)

section \<open>Manual allowances\<close>

lemma allowances_loop_acc:
  "allowances_loop xs d (a, e) =
     (a + fst (allowances_loop xs d (0, 0)), e + snd (allowances_loop xs d (0, 0)))"
proof (induction xs arbitrary: a e)
  case Nil
  show ?case by simp
next
  case (Cons x xs)
  show ?case
    using Cons.IH [of a "e + amount x"] Cons.IH [of 0 "amount x"]
      Cons.IH [of "a + remaining_amount x d" e] Cons.IH [of "remaining_amount x d" 0]
    by simp
qed

lemma allowances_loop_append:
  "allowances_loop (xs @ ys) d acc = allowances_loop ys d (allowances_loop xs d acc)"
  by (induction xs d acc rule: allowances_loop.induct) simp_all

lemma active_nil: "calculate_active_manual_allowances [] d = (0, 0)"
  by (simp add: calculate_active_manual_allowances_def)

lemma active_single:
  "calculate_active_manual_allowances [a] d =
     (if is_expired a d then (0, amount a) else (amount a, 0))"
  by (simp add: calculate_active_manual_allowances_def remaining_amount_def)

lemma active_append:
  "calculate_active_manual_allowances (xs @ ys) d =
    (fst (calculate_active_manual_allowances xs d)
       + fst (calculate_active_manual_allowances ys d),
     snd (calculate_active_manual_allowances xs d)
       + snd (calculate_active_manual_allowances ys d))"
  unfolding calculate_active_manual_allowances_def allowances_loop_append
  using allowances_loop_acc [of ys d "fst (allowances_loop xs d (0, 0))"
      "snd (allowances_loop xs d (0, 0))"]
  by simp

lemma active_insert:
  "calculate_active_manual_allowances (xs @ a # ys) d =
    (fst (calculate_active_manual_allowances (xs @ ys) d)
       + (if is_expired a d then 0 else amount a),
     snd (calculate_active_manual_allowances (xs @ ys) d)
       + (if is_expired a d then amount a else 0))"
proof -
  have "xs @ a # ys = xs @ [a] @ ys" by simp
  then show ?thesis
    by (simp only: active_append [of xs] active_append [of "[a]"] active_single)
       (simp add: active_append [of xs ys])
qed

text \<open>
  Claim C9. An allowance \<open>a\<close> created on day \<open>C\<close> with offset \<open>E\<close>, anywhere in the
  list: on a day \<open>D < C + E\<close> it is not expired and adds its full amount to the active
  total and nothing to the expired total; on a day \<open>D \<ge> C + E\<close> it is expired, adds
  nothing to the active total and its full amount to the expired total. Without an
  offset it is active on every day.
\<close>

theorem allowance_active_until_expiry:
  "(\<forall>E. expiration_days a = Some E \<and> D < created_day a + E \<longrightarrow>
       \<not> is_expired a D \<and> remaining_amount a D = amount a
       \<and> calculate_active_manual_allowances (xs @ a # ys) D =
           (fst (calculate_active_manual_allowances (xs @ ys) D) + amount a,
            snd (calculate_active_manual_allowances (xs @ ys) D)))
   \<and> (\<forall>E. expiration_days a = Some E \<and> created_day a + E \<le> D \<longrightarrow>
       is_expired a D \<and> remaining_amount a D = 0
       \<and> calculate_active_manual_allowances (xs @ a # ys) D =
           (fst (calculate_active_manual_allowances (xs @ ys) D),
            snd (calculate_active_manual_allowances (xs @ ys) D) + amount a))
   \<and> (expiration_days a = None \<longrightarrow>
       \<not> is_expired a D \<and> remaining_amount a D = amount a
       \<and> calculate_active_manual_allowances (xs @ a # ys) D =
           (fst (calculate_active_manual_allowances (xs @ ys) D) + amount a,
            snd (calculate_active_manual_allowances (xs @ ys) D)))"
  by (simp add: active_insert is_expired_def remaining_amount_def)

theorem allowance_active_until_expiry_witness:
  "calculate_active_manual_allowances [expiring_allowance] 7 = (50, 0)
   \<and> calculate_active_manual_allowances [expiring_allowance] 8 = (0, 50)
   \<and> calculate_active_manual_allowances [override_allowance] 1000 = (10, 0)"
proof -
  have e: "expiration_days expiring_allowance = Some 3"
    and c: "created_day expiring_allowance = 5"
    and a: "amount expiring_allowance = 50"
    and n: "expiration_days override_allowance = None"
    and b: "amount override_allowance = 10"
    by (simp_all add: expiring_allowance_def override_allowance_def)
  have "(7 :: int) < created_day expiring_allowance + 3"
    and "created_day expiring_allowance + 3 \<le> (8 :: int)"
    unfolding c by simp_all
  then show ?thesis
    using allowance_active_until_expiry [of expiring_allowance 7 "[]" "[]"]
      allowance_active_until_expiry [of expiring_allowance 8 "[]" "[]"]
      allowance_active_until_expiry [of override_allowance 1000 "[]" "[]"]
    by (simp add: e a n b active_nil)
qed

section \<open>The daily spend limit\<close>

lemma last_n_6_of_7:
  assumes "7 \<le> length xs"
  shows "last_n 6 xs = last_n 6 (last_n 7 xs)"
proof -
  from assms have "length xs - 6 = Suc (length xs - 7)" by arith
  then show ?thesis by (simp add: last_n_def)
qed

lemma no_recalc_in_bootstrap:
  "length h < 7 \<Longrightarrow> \<not> should_recalc h rule d l"
  by (simp add: should_recalc_def)

lemma bootstrap_eq:
  assumes "length h < 7"
  shows "calculate_daily_spend_limit h rule d l b =
    Inr (if h = [] then min_growth_dollars rule / 7
         else max (max ((min_growth_dollars rule - sum_list h) / (7 - real (length h)))
                       (sum_list h / real (length h) * (1 + growth_percentage rule / 100)))
                  (min_growth_dollars rule / 7), l, b)"
  unfolding calculate_daily_spend_limit_def Let_def
  using assms by (simp only: no_recalc_in_bootstrap [OF assms] if_False) simp

lemma recalc_eq:
  assumes "weekly_recalc_enabled rule" "7 \<le> length h"
    "d - l \<ge> 7" "d mod 7 = weekly_recalc_day rule"
  shows "calculate_daily_spend_limit h rule d l b =
     Inr (max (min_growth_dollars rule)
              (sum_list (last_n 7 h) / 7 * 7 * (1 + growth_percentage rule / 100)) / 7,
          d, Some (sum_list (last_n 7 h) / 7))"
proof -
  have r: "should_recalc h rule d l"
    using assms by (simp add: should_recalc_def)
  show ?thesis
    unfolding calculate_daily_spend_limit_def Let_def
    using assms(1,2) by (simp only: r if_True option.case) simp
qed

lemma baseline_eq:
  assumes "weekly_recalc_enabled rule" "7 \<le> length h"
    "\<not> (d - l \<ge> 7 \<and> d mod 7 = weekly_recalc_day rule)"
  shows "calculate_daily_spend_limit h rule d l (Some bb) =
     Inr (max (min_growth_dollars rule)
              (bb * 7 * (1 + growth_percentage rule / 100)) / 7, l, Some bb)"
proof -
  have r: "\<not> should_recalc h rule d l"
    using assms by (auto simp: should_recalc_def)
  show ?thesis
    unfolding calculate_daily_spend_limit_def Let_def
    using assms(1,2) by (simp only: r if_True if_False option.case) simp
qed

lemma no_recalc_keeps:
  assumes "\<not> should_recalc h rule d l"
    "calculate_daily_spend_limit h rule d l b = Inr (lmt, l', b')"
  shows "l' = l \<and> b' = b"
  using assms(2) unfolding calculate_daily_spend_limit_def Let_def
  by (simp only: assms(1) if_False) (auto split: if_splits option.splits)

lemma rolling_eq:
  assumes "7 \<le> length h"
    and "\<not> weekly_recalc_enabled rule
         \<or> (b = None \<and> \<not> (d - l \<ge> 7 \<and> d mod 7 = weekly_recalc_day rule))"
  shows "calculate_daily_spend_limit h rule d l b =
    (if 1 + growth_percentage rule / 100 < 0
     then Inl (TypeError ''> not supported between float and complex'')
     else Inr (max (max (sum_list (last_n 7 h)
                          * (1 + growth_percentage rule / 100) powr (1 / 7)
                          - sum_list (last_n 6 h))
                        (sum_list (last_n 7 h) + min_growth_dollars rule / 7
                          - sum_list (last_n 6 h)))
                   0, l, b))"
proof -
  have r: "\<not> should_recalc h rule d l"
    using assms(2) by (auto simp: should_recalc_def)
  have n: "(if weekly_recalc_enabled rule then b else None) = None"
    using assms(2) by auto
  show ?thesis
    unfolding calculate_daily_spend_limit_def Let_def
    using assms(1) by (simp only: r n if_False option.case) simp
qed

lemma calc_returns:
  assumes "0 \<le> 1 + growth_percentage rule / 100"
  shows "\<exists>dl l1 b1. calculate_daily_spend_limit h rule d l b = Inr (dl, l1, b1)"
proof -
  have "\<not> isl (calculate_daily_spend_limit h rule d l b)"
    using assms unfolding calculate_daily_spend_limit_def Let_def
    by (simp split: option.split)
  then obtain p where "calculate_daily_spend_limit h rule d l b = Inr p"
    by (cases "calculate_daily_spend_limit h rule d l b") auto
  then show ?thesis by (cases p) auto
qed

lemma calc_nonneg:
  assumes "0 \<le> min_growth_dollars rule"
    and "calculate_daily_spend_limit h rule d l b = Inr (dl, l1, b1)"
  shows "0 \<le> dl"
proof (cases "length h < 7")
  case True
  have "min_growth_dollars rule / 7 \<le> max x (min_growth_dollars rule / 7)" for x
    by (rule max.cobounded2)
  then have "0 \<le> max x (min_growth_dollars rule / 7)" for x
    using assms(1) by (simp add: le_max_iff_disj)
  with assms show ?thesis
    unfolding bootstrap_eq [OF True] by (cases "h = []") auto
next
  case False
  show ?thesis
  proof (cases "if weekly_recalc_enabled rule
      then (if should_recalc h rule d l then Some (sum_list (last_n 7 h) / 7) else b)
      else None")
    case None
    have "calculate_daily_spend_limit h rule d l b \<noteq> Inr (dl, l1, b1) \<or>
      dl = max (max (sum_list (last_n 7 h) * (1 + growth_percentage rule / 100) powr (1 / 7)
                       - sum_list (last_n 6 h))
                    (sum_list (last_n 7 h) + min_growth_dollars rule / 7
                       - sum_list (last_n 6 h))) 0"
      unfolding calculate_daily_spend_limit_def Let_def None using False
      by (simp only: if_False option.case sum.inject prod.inject sum.distinct split: if_split)
        simp
    with assms(2) show ?thesis by auto
  next
    case (Some bb)
    have "calculate_daily_spend_limit h rule d l b \<noteq> Inr (dl, l1, b1) \<or>
      dl = max (min_growth_dollars rule) (bb * 7 * (1 + growth_percentage rule / 100)) / 7"
      unfolding calculate_daily_spend_limit_def Let_def Some using False
      by (simp only: if_False option.case sum.inject prod.inject) simp
    with assms(2) have "dl =
        max (min_growth_dollars rule) (bb * 7 * (1 + growth_percentage rule / 100)) / 7"
      by simp
    then show ?thesis using assms(1) by (simp add: le_max_iff_disj)
  qed
qed

text \<open>
  Claim C4. With fewer than 7 entries the call returns, the bookkeeping is the one
  passed in, and the limit is \<open>m / 7\<close> for the empty history and otherwise the largest
  of \<open>(m - total) / (7 - n)\<close>, \<open>(total / n) * (1 + g / 100)\<close> and \<open>m / 7\<close>, for \<open>n\<close>
  entries summing to \<open>total\<close>. The limit is never below \<open>m / 7\<close>.
\<close>

theorem bootstrap_limit:
  assumes "length h < 7"
  shows "\<exists>daily.
      calculate_daily_spend_limit h rule d l b = Inr (daily, l, b)
    \<and> daily =
        (if h = [] then min_growth_dollars rule / 7
         else max (max ((min_growth_dollars rule - sum_list h) / (7 - real (length h)))
                       (sum_list h / real (length h) * (1 + growth_percentage rule / 100)))
                  (min_growth_dollars rule / 7))
    \<and> min_growth_dollars rule / 7 \<le> daily"
proof -
  define E where "E = (if h = [] then min_growth_dollars rule / 7
           else max (max ((min_growth_dollars rule - sum_list h) / (7 - real (length h)))
                         (sum_list h / real (length h) * (1 + growth_percentage rule / 100)))
                    (min_growth_dollars rule / 7))"
  have e: "calculate_daily_spend_limit h rule d l b = Inr (E, l, b)"
    unfolding E_def by (rule bootstrap_eq [OF assms])
  have f: "min_growth_dollars rule / 7 \<le> E"
  proof (cases "h = []")
    case True
    then show ?thesis unfolding E_def by (simp only: refl if_True order_refl)
  next
    case False
    then show ?thesis unfolding E_def by (simp only: if_False max.cobounded2)
  qed
  show ?thesis using e f E_def by blast
qed

theorem bootstrap_limit_witness:
  "calculate_daily_spend_limit [] test_rule 0 0 None = Inr (20 / 7, 0, None)"
proof -
  have n: "length ([] :: real list) < 7" by simp
  have m: "min_growth_dollars test_rule = 20" by (simp add: test_rule_def)
  from bootstrap_limit [OF n, of test_rule 0 0 None] show ?thesis
    unfolding m by auto
qed

text \<open>
  Claim C3, as amended. For a history of at least 7 entries and a rule whose growth
  percentage is at least -100 (so that the seventh root is a real number), when weekly
  recalculation is disabled, or it is enabled but no baseline exists (none is passed in
  and this call does not recalculate), the call returns
  \<open>max (R7 * (1 + g / 100) ^ (1 / 7) - R6, R7 + m / 7 - R6, 0)\<close> and the bookkeeping it
  was given. The witness is the steady history of 5 per day with the rule of growth 20
  and minimum 20.
\<close>

theorem rolling_window_limit:
  assumes "7 \<le> length h"
    and "\<not> weekly_recalc_enabled rule
         \<or> (b = None \<and> \<not> (d - l \<ge> 7 \<and> d mod 7 = weekly_recalc_day rule))"
    and "- 100 \<le> growth_percentage rule"
  shows "calculate_daily_spend_limit h rule d l b =
    Inr (max (max (sum_list (last_n 7 h) * (1 + growth_percentage rule / 100) powr (1 / 7)
                     - sum_list (last_n 6 h))
                  (sum_list (last_n 7 h) + min_growth_dollars rule / 7
                     - sum_list (last_n 6 h)))
             0, l, b)"
proof -
  have g: "\<not> 1 + growth_percentage rule / 100 < 0"
    using assms(3) by simp
  show ?thesis
    unfolding rolling_eq [OF assms(1,2)] by (simp only: g if_False)
qed

theorem rolling_window_limit_witness:
  "calculate_daily_spend_limit [5, 5, 5, 5, 5, 5, 5] test_rule 7 0 None =
    Inr (max (max (35 * (12 / 10) powr (1 / 7) - 30) (35 + 20 / 7 - 30)) 0, 0, None)"
proof -
  have n: "7 \<le> length [5, 5, 5, 5, 5, 5, 5 :: real]" by simp
  have w: "\<not> weekly_recalc_enabled test_rule
         \<or> (None = (None :: real option)
             \<and> \<not> ((7 :: int) - 0 \<ge> 7 \<and> 7 mod 7 = weekly_recalc_day test_rule))"
    by (simp add: test_rule_def)
  have g: "- 100 \<le> growth_percentage test_rule" by (simp add: test_rule_def)
  have s7: "sum_list (last_n 7 [5, 5, 5, 5, 5, 5, 5 :: real]) = 35"
    and s6: "sum_list (last_n 6 [5, 5, 5, 5, 5, 5, 5 :: real]) = 30"
    by (simp_all add: last_n_def)
  have v: "growth_percentage test_rule = 20" "min_growth_dollars test_rule = 20"
    by (simp_all add: test_rule_def)
  show ?thesis
    using rolling_window_limit [OF n w g] unfolding s7 s6 v by simp
qed

text \<open>
  The claim as written fails for a rule built with validation bypassed and a growth
  percentage below -100: the base of the power is negative, the power is a complex
  number, and the call raises instead of returning.
\<close>

theorem rolling_window_raises_counterexample:
  "SGMRule_post_init bypass_rule_minus200 = Inr bypass_rule_minus200
   \<and> \<not> weekly_recalc_enabled bypass_rule_minus200
   \<and> calculate_daily_spend_limit [5, 5, 5, 5, 5, 5, 5] bypass_rule_minus200 7 0 None =
       Inl (TypeError ''> not supported between float and complex'')"
proof -
  have n: "7 \<le> length [5, 5, 5, 5, 5, 5, 5 :: real]" by simp
  have w: "\<not> weekly_recalc_enabled bypass_rule_minus200"
    by (simp add: bypass_rule_minus200_def)
  have g: "1 + growth_percentage bypass_rule_minus200 / 100 < 0"
    by (simp add: bypass_rule_minus200_def)
  have c: "calculate_daily_spend_limit [5, 5, 5, 5, 5, 5, 5] bypass_rule_minus200 7 0 None =
       Inl (TypeError ''> not supported between float and complex'')"
    unfolding rolling_eq [OF n disjI1 [OF w]] by (simp only: g if_True)
  have p: "SGMRule_post_init bypass_rule_minus200 = Inr bypass_rule_minus200"
    by (simp add: SGMRule_post_init_def bypass_rule_minus200_def)
  show ?thesis using p w c by blast
qed

text \<open>
  Claim C5. With weekly recalculation enabled and at least 7 entries:
  if \<open>d - l \<ge> 7\<close> and \<open>d mod 7\<close> is the rule's weekday, the call sets the baseline to
  the mean of the last 7 entries and the last recalculation day to \<open>d\<close>, and returns
  \<open>max (m, baseline * 7 * (1 + g / 100)) / 7\<close>; with that bookkeeping, no call on a day
  less than 7 days after \<open>d\<close> recalculates again. Otherwise the bookkeeping comes back
  unchanged, and where a baseline was passed in the limit is
  \<open>max (m, baseline * 7 * (1 + g / 100)) / 7\<close> for it.
\<close>

theorem weekly_recalculation:
  assumes "weekly_recalc_enabled rule" and "7 \<le> length h"
  shows
    "(d - l \<ge> 7 \<and> d mod 7 = weekly_recalc_day rule \<longrightarrow>
        calculate_daily_spend_limit h rule d l b =
          Inr (max (min_growth_dollars rule)
                   (sum_list (last_n 7 h) / 7 * 7 * (1 + growth_percentage rule / 100)) / 7,
               d, Some (sum_list (last_n 7 h) / 7))
        \<and> (\<forall>h' d'. 7 \<le> length h' \<and> d' - d < 7 \<longrightarrow>
              calculate_daily_spend_limit h' rule d' d (Some (sum_list (last_n 7 h) / 7)) =
                Inr (max (min_growth_dollars rule)
                      (sum_list (last_n 7 h) / 7 * 7 * (1 + growth_percentage rule / 100)) / 7,
                     d, Some (sum_list (last_n 7 h) / 7))))
     \<and> (\<not> (d - l \<ge> 7 \<and> d mod 7 = weekly_recalc_day rule) \<longrightarrow>
          (\<forall>bb. b = Some bb \<longrightarrow>
             calculate_daily_spend_limit h rule d l b =
               Inr (max (min_growth_dollars rule)
                        (bb * 7 * (1 + growth_percentage rule / 100)) / 7, l, Some bb))
          \<and> (\<forall>lmt l' b'. calculate_daily_spend_limit h rule d l b = Inr (lmt, l', b')
                \<longrightarrow> l' = l \<and> b' = b))"
proof (intro conjI impI allI)
  assume t: "d - l \<ge> 7 \<and> d mod 7 = weekly_recalc_day rule"
  show "calculate_daily_spend_limit h rule d l b =
          Inr (max (min_growth_dollars rule)
                   (sum_list (last_n 7 h) / 7 * 7 * (1 + growth_percentage rule / 100)) / 7,
               d, Some (sum_list (last_n 7 h) / 7))"
    using recalc_eq [OF assms] t by simp
next
  fix h' :: "real list" and d' :: int
  assume w: "7 \<le> length h' \<and> d' - d < 7"
  then have "\<not> (d' - d \<ge> 7 \<and> d' mod 7 = weekly_recalc_day rule)" by simp
  then show "calculate_daily_spend_limit h' rule d' d (Some (sum_list (last_n 7 h) / 7)) =
                Inr (max (min_growth_dollars rule)
                      (sum_list (last_n 7 h) / 7 * 7 * (1 + growth_percentage rule / 100)) / 7,
                     d, Some (sum_list (last_n 7 h) / 7))"
    using baseline_eq [OF assms(1)] w by blast
next
  fix bb
  assume "\<not> (d - l \<ge> 7 \<and> d mod 7 = weekly_recalc_day rule)" "b = Some bb"
  then show "calculate_daily_spend_limit h rule d l b =
               Inr (max (min_growth_dollars rule)
                        (bb * 7 * (1 + growth_percentage rule / 100)) / 7, l, Some bb)"
    using baseline_eq [OF assms] by blast
next
  fix lmt l' b'
  assume n: "\<not> (d - l \<ge> 7 \<and> d mod 7 = weekly_recalc_day rule)"
    and e: "calculate_daily_spend_limit h rule d l b = Inr (lmt, l', b')"
  have "\<not> should_recalc h rule d l"
    using n by (auto simp: should_recalc_def)
  from no_recalc_keeps [OF this e]
  show "l' = l" and "b' = b" by simp_all
qed

theorem weekly_recalculation_witness:
  "calculate_daily_spend_limit [5, 5, 5, 5, 5, 5, 5] weekly_rule 7 0 None = Inr (6, 7, Some 5)
   \<and> calculate_daily_spend_limit [5, 5, 5, 5, 5, 5, 5, 6] weekly_rule 8 7 (Some 5)
       = Inr (6, 7, Some 5)"
proof -
  have a: "weekly_recalc_enabled weekly_rule" by (simp add: weekly_rule_def)
  have b: "7 \<le> length [5, 5, 5, 5, 5, 5, 5 :: real]" by simp
  have c: "7 \<le> length [5, 5, 5, 5, 5, 5, 5, 6 :: real] \<and> (8 :: int) - 7 < 7" by simp
  have s: "sum_list (last_n 7 [5, 5, 5, 5, 5, 5, 5 :: real]) / 7 = 5"
    by (simp add: last_n_def)
  have t: "(7 :: int) - 0 \<ge> 7 \<and> 7 mod 7 = weekly_recalc_day weekly_rule"
    by (simp add: weekly_rule_def)
  have v: "growth_percentage weekly_rule = 20" "min_growth_dollars weekly_rule = 20"
    by (simp_all add: weekly_rule_def)
  from weekly_recalculation [OF a b, of 7 0 None] t c show ?thesis
    unfolding s v by simp
qed

text \<open>
  Claim C10. Two histories of at least 7 entries with the same last 7 entries give the
  same outcome for the same rule, day, last recalculation day and baseline: the same
  limit and bookkeeping, or the same exception.
\<close>

theorem limit_depends_on_last_seven:
  assumes "7 \<le> length h1" and "7 \<le> length h2" and "last_n 7 h1 = last_n 7 h2"
  shows "calculate_daily_spend_limit h1 rule d l b =
         calculate_daily_spend_limit h2 rule d l b"
proof -
  have s: "last_n 6 h1 = last_n 6 h2"
    using last_n_6_of_7 [OF assms(1)] last_n_6_of_7 [OF assms(2)] assms(3) by simp
  have r: "should_recalc h1 rule d l = should_recalc h2 rule d l"
    using assms(1,2) by (simp add: should_recalc_def)
  show ?thesis
    unfolding calculate_daily_spend_limit_def r s assms(3) using assms(1,2) by simp
qed

theorem limit_depends_on_last_seven_witness:
  "calculate_daily_spend_limit [1, 5, 5, 5, 5, 5, 5, 5] weekly_rule 14 0 None =
   calculate_daily_spend_limit [900, 800, 5, 5, 5, 5, 5, 5, 5] weekly_rule 14 0 None"
proof -
  have a: "7 \<le> length [1, 5, 5, 5, 5, 5, 5, 5 :: real]"
    and b: "7 \<le> length [900, 800, 5, 5, 5, 5, 5, 5, 5 :: real]"
    and c: "last_n 7 [1, 5, 5, 5, 5, 5, 5, 5 :: real] =
            last_n 7 [900, 800, 5, 5, 5, 5, 5, 5, 5]"
    by (simp_all add: last_n_def)
  show ?thesis by (rule limit_depends_on_last_seven [OF a b c])
qed

section \<open>The day's settlement\<close>

text \<open>
  What a returned \<open>DayResult\<close> holds, field by field. \<open>R\<close> is the triple of step 1:
  the reserved spend, the new cumulative usage and the reserved volume available.
\<close>

lemma simulate_day_Inr:
  assumes "simulate_day d bd req wb h rule wc rc cu ma l b m = Inr (r, l', b')"
    and R: "R =
        (case rc of
           None \<Rightarrow> (0, cu, 0)
         | Some c \<Rightarrow>
             if monthly_volume c > 0 then
               (let cumulative0 = (if bd = 1 \<and> d > 0 then 0 else cu);
                    reserved_available = max 0 (monthly_volume c - cumulative0);
                    spend = min req reserved_available
                in (spend, cumulative0 + spend, reserved_available))
             else (0, cu, 0))"
  shows "calculate_daily_spend_limit h rule d l b = Inr (daily_spend_limit r, l', b')"
    and "day_index r = d"
    and "billing_day r = bd"
    and "requested_spend r = req"
    and "reserved_spend r = fst R"
    and "cumulative_reserved_used r = fst (snd R)"
    and "reserved_remaining r =
        (case rc of None \<Rightarrow> snd (snd R)
           | Some c \<Rightarrow> max 0 (monthly_volume c - fst (snd R)))"
    and "accepted_spend r = reserved_spend r + sgm_spend r"
    and "rejected_spend r = req - accepted_spend r"
    and "wallet_max_capacity r =
        calculate_max_capacity (case wc of None \<Rightarrow> WalletConfig_default | Some w \<Rightarrow> w)
          (daily_spend_limit r)"
    and "wallet_balance_start r = min wb (wallet_max_capacity r)"
    and "sgm_spend r =
        min (req - reserved_spend r)
          (min (wallet_balance_start r + daily_spend_limit r) (wallet_max_capacity r)
           + fst (calculate_active_manual_allowances
                   ((case ma of None \<Rightarrow> [] | Some xs \<Rightarrow> xs) @
                    (if m > 0 then [\<lparr>amount = m, created_day = d, expiration_days = None,
                        reason = ''Legacy compatibility''\<rparr>] else [])) d))"
    and "expired_allowances r =
        snd (calculate_active_manual_allowances
                   ((case ma of None \<Rightarrow> [] | Some xs \<Rightarrow> xs) @
                    (if m > 0 then [\<lparr>amount = m, created_day = d, expiration_days = None,
                        reason = ''Legacy compatibility''\<rparr>] else [])) d)"
    and "wallet_balance_end r =
        min (wallet_balance_start r + daily_spend_limit r) (wallet_max_capacity r)
        - min (sgm_spend r)
            (min (wallet_balance_start r + daily_spend_limit r) (wallet_max_capacity r))"
    and "manual_allowances_used r =
        sgm_spend r
        - min (sgm_spend r)
            (min (wallet_balance_start r + daily_spend_limit r) (wallet_max_capacity r))"
    and "intervention_type r =
        (if req - reserved_spend r > 0 \<and> sgm_spend r < req - reserved_spend r then
           (if (req - reserved_spend r - sgm_spend r) / (req - reserved_spend r) \<ge> 9 / 10
            then ''shutdown''
            else if (req - reserved_spend r - sgm_spend r) / (req - reserved_spend r) > 0
            then ''throttle'' else ''none'')
         else ''none'')"
proof -
  obtain dl l1 b1 where c: "calculate_daily_spend_limit h rule d l b = Inr (dl, l1, b1)"
  proof (cases "calculate_daily_spend_limit h rule d l b")
    case (Inl e)
    have "simulate_day d bd req wb h rule wc rc cu ma l b m = Inl e"
      unfolding simulate_day_def Inl
      by (simp only: Let_def case_prod_beta sum.case)
    with assms(1) show ?thesis by simp
  next
    case (Inr p)
    then show ?thesis using that by (cases p) auto
  qed
  have m: "(if m > 0 then (case ma of None \<Rightarrow> [] | Some xs \<Rightarrow> xs) @
                   [\<lparr>amount = m, created_day = d,
                     expiration_days = None, reason = ''Legacy compatibility''\<rparr>]
            else (case ma of None \<Rightarrow> [] | Some xs \<Rightarrow> xs)) =
     (case ma of None \<Rightarrow> [] | Some xs \<Rightarrow> xs) @
                    (if m > 0 then [\<lparr>amount = m, created_day = d, expiration_days = None,
                        reason = ''Legacy compatibility''\<rparr>] else [])"
    by simp
  have r: "r = fst (projr (simulate_day d bd req wb h rule wc rc cu ma l b m))"
    and l: "l' = fst (snd (projr (simulate_day d bd req wb h rule wc rc cu ma l b m)))"
    and b: "b' = snd (snd (projr (simulate_day d bd req wb h rule wc rc cu ma l b m)))"
    unfolding assms(1) by simp_all
  show "calculate_daily_spend_limit h rule d l b = Inr (daily_spend_limit r, l', b')"
    unfolding r l b unfolding simulate_day_def R [symmetric] m c
    by (simp only: Let_def case_prod_beta sum.case prod.case fst_conv snd_conv sum.sel
          DayResult.select_convs simp_thms m)
  show "day_index r = d" and "billing_day r = bd" and "requested_spend r = req"
    and "reserved_spend r = fst R" and "cumulative_reserved_used r = fst (snd R)"
    unfolding r l b unfolding simulate_day_def R [symmetric] m c
    by (simp_all only: Let_def case_prod_beta sum.case prod.case fst_conv snd_conv sum.sel
          DayResult.select_convs simp_thms m)
  show "reserved_remaining r =
        (case rc of None \<Rightarrow> snd (snd R)
           | Some c \<Rightarrow> max 0 (monthly_volume c - fst (snd R)))" and
    "accepted_spend r = reserved_spend r + sgm_spend r" and
    "rejected_spend r = req - accepted_spend r" and
    "wallet_max_capacity r =
        calculate_max_capacity (case wc of None \<Rightarrow> WalletConfig_default | Some w \<Rightarrow> w)
          (daily_spend_limit r)" and
    "wallet_balance_start r = min wb (wallet_max_capacity r)" and
    "sgm_spend r =
        min (req - reserved_spend r)
          (min (wallet_balance_start r + daily_spend_limit r) (wallet_max_capacity r)
           + fst (calculate_active_manual_allowances
                   ((case ma of None \<Rightarrow> [] | Some xs \<Rightarrow> xs) @
                    (if m > 0 then [\<lparr>amount = m, created_day = d, expiration_days = None,
                        reason = ''Legacy compatibility''\<rparr>] else [])) d))" and
    "expired_allowances r =
        snd (calculate_active_manual_allowances
                   ((case ma of None \<Rightarrow> [] | Some xs \<Rightarrow> xs) @
                    (if m > 0 then [\<lparr>amount = m, created_day = d, expiration_days = None,
                        reason = ''Legacy compatibility''\<rparr>] else [])) d)" and
    "wallet_balance_end r =
        min (wallet_balance_start r + daily_spend_limit r) (wallet_max_capacity r)
        - min (sgm_spend r)
            (min (wallet_balance_start r + daily_spend_limit r) (wallet_max_capacity r))" and
    "manual_allowances_used r =
        sgm_spend r
        - min (sgm_spend r)
            (min (wallet_balance_start r + daily_spend_limit r) (wallet_max_capacity r))" and
    "intervention_type r =
        (if req - reserved_spend r > 0 \<and> sgm_spend r < req - reserved_spend r then
           (if (req - reserved_spend r - sgm_spend r) / (req - reserved_spend r) \<ge> 9 / 10
            then ''shutdown''
            else if (req - reserved_spend r - sgm_spend r) / (req - reserved_spend r) > 0
            then ''throttle'' else ''none'')
         else ''none'')"
    unfolding r l b unfolding simulate_day_def R [symmetric] m c
    by (simp_all only: Let_def case_prod_beta sum.case prod.case fst_conv snd_conv sum.sel
          DayResult.select_convs simp_thms m)
qed

lemma simulate_day_returns:
  assumes "calculate_daily_spend_limit h rule d l b = Inr (dl, l1, b1)"
  shows "\<exists>r. simulate_day d bd req wb h rule wc rc cu ma l b m = Inr (r, l1, b1)"
  unfolding simulate_day_def assms
  by (simp only: Let_def case_prod_beta sum.case prod.case fst_conv snd_conv sum.inject
        prod.inject simp_thms ex_simps)

lemma simulate_day_total:
  assumes "- 100 \<le> growth_percentage rule"
  shows "\<exists>r l1 b1. simulate_day d bd req wb h rule wc rc cu ma l b m = Inr (r, l1, b1)"
proof -
  from assms have "0 \<le> 1 + growth_percentage rule / 100" by simp
  from calc_returns [OF this] obtain dl l1 b1
    where "calculate_daily_spend_limit h rule d l b = Inr (dl, l1, b1)" by blast
  from simulate_day_returns [OF this] show ?thesis by blast
qed

lemma capacity_nonneg:
  assumes "0 \<le> dl"
    and "\<forall>c. model w = ''custom'' \<and> custom_multiplier w = Some c \<longrightarrow> 0 \<le> c"
  shows "0 \<le> calculate_max_capacity w dl"
  using assms unfolding calculate_max_capacity_def
  by (auto split: option.splits)

lemma capacity_default: "calculate_max_capacity WalletConfig_default dl = dl * 2"
  by (simp add: calculate_max_capacity_def WalletConfig_default_def)

lemma day_with_override_eval:
  "day_with_override =
   Inr (\<lparr>day_index = 0, billing_day = 1, requested_spend = 100, accepted_spend = 90 / 7,
         rejected_spend = 610 / 7, reserved_spend = 0, sgm_spend = 90 / 7,
         daily_spend_limit = 20 / 7, wallet_balance_start = 0, wallet_balance_end = 0,
         wallet_max_capacity = 40 / 7, intervention_type = ''throttle'',
         reserved_remaining = 0, cumulative_reserved_used = 0,
         manual_allowances_used = 10, expired_allowances = 0\<rparr>, 0, None)"
proof -
  have c: "calculate_daily_spend_limit [] test_rule 0 0 None = Inr (20 / 7, 0, None)"
    unfolding bootstrap_eq [of "[]", simplified] by (simp add: test_rule_def)
  have a: "calculate_active_manual_allowances [override_allowance] 0 = (10, 0)"
    by (simp add: active_single is_expired_def override_allowance_def)
  show ?thesis
    unfolding day_with_override_def simulate_day_def c
    apply (simp only: Let_def case_prod_beta sum.case prod.case fst_conv snd_conv option.case
        a capacity_default)
    apply (simp add: a)
    done
qed

lemma day_with_negative_capacity_eval:
  "day_with_negative_capacity =
   Inr (\<lparr>day_index = 0, billing_day = 1, requested_spend = 0, accepted_spend = - (20 / 7),
         rejected_spend = 20 / 7, reserved_spend = 0, sgm_spend = - (20 / 7),
         daily_spend_limit = 20 / 7, wallet_balance_start = - (20 / 7),
         wallet_balance_end = 0, wallet_max_capacity = - (20 / 7),
         intervention_type = ''none'', reserved_remaining = 0,
         cumulative_reserved_used = 0, manual_allowances_used = 0,
         expired_allowances = 0\<rparr>, 0, None)"
proof -
  have c: "calculate_daily_spend_limit [] test_rule 0 0 None = Inr (20 / 7, 0, None)"
    unfolding bootstrap_eq [of "[]", simplified] by (simp add: test_rule_def)
  have w: "calculate_max_capacity negative_custom_wallet (20 / 7) = - (20 / 7)"
    by (simp add: calculate_max_capacity_def negative_custom_wallet_def)
  show ?thesis
    unfolding day_with_negative_capacity_def simulate_day_def c
    apply (simp only: Let_def case_prod_beta sum.case prod.case fst_conv snd_conv option.case
        w active_nil)
    apply (simp add: active_nil)
    done
qed

text \<open>
  Claim C1, as amended. In every \<open>DayResult\<close> that \<open>simulate_day\<close> returns, the accepted
  spend is the reserved spend plus the SGM spend. The spend from manual allowances is
  the part of the SGM spend beyond what the wallet could give, so it is already inside
  the SGM spend; it is never negative, and adding it once more gives the accepted spend
  only when it is zero.
\<close>

theorem accepted_is_reserved_plus_sgm:
  assumes "simulate_day d bd req wb h rule wc rc cu ma l b m = Inr (r, l', b')"
  shows "accepted_spend r = reserved_spend r + sgm_spend r
    \<and> manual_allowances_used r =
        sgm_spend r - min (sgm_spend r)
          (min (wallet_balance_start r + daily_spend_limit r) (wallet_max_capacity r))
    \<and> 0 \<le> manual_allowances_used r
    \<and> (reserved_spend r + sgm_spend r + manual_allowances_used r = accepted_spend r
         \<longleftrightarrow> manual_allowances_used r = 0)"
proof -
  note f = simulate_day_Inr [OF assms refl]
  have a: "accepted_spend r = reserved_spend r + sgm_spend r" by (rule f(8))
  have u: "manual_allowances_used r =
        sgm_spend r - min (sgm_spend r)
          (min (wallet_balance_start r + daily_spend_limit r) (wallet_max_capacity r))"
    by (rule f(15))
  have n: "0 \<le> manual_allowances_used r" unfolding u by simp
  show ?thesis using a u n by simp
qed

theorem accepted_is_reserved_plus_sgm_witness:
  "\<exists>r. day_with_override = Inr (r, 0, None)
     \<and> accepted_spend r = reserved_spend r + sgm_spend r
     \<and> accepted_spend r = 90 / 7 \<and> manual_allowances_used r = 10"
proof -
  obtain r where e: "day_with_override = Inr (r, 0, None)"
    and v: "accepted_spend r = 90 / 7" "manual_allowances_used r = 10"
    unfolding day_with_override_eval by simp
  from accepted_is_reserved_plus_sgm [OF e [unfolded day_with_override_def]]
  have "accepted_spend r = reserved_spend r + sgm_spend r" by (rule conjunct1)
  with e v show ?thesis by blast
qed

text \<open>
  The claim as written fails on a day that uses a manual allowance: with a request of
  100, a daily limit of 20 / 7 and an allowance of 10, the accepted spend is 90 / 7 and
  the three amounts sum to 160 / 7.
\<close>

theorem manual_spend_inside_sgm_counterexample:
  "\<not> isl day_with_override
   \<and> reserved_spend (fst (projr day_with_override))
       + sgm_spend (fst (projr day_with_override))
       + manual_allowances_used (fst (projr day_with_override))
     \<noteq> accepted_spend (fst (projr day_with_override))"
  unfolding day_with_override_eval by simp

text \<open>
  Claim C6, as amended. For a wallet balance and a request that are not negative, a
  rule constructed with its bounds validated, a custom capacity multiplier that is not
  negative and manual allowances whose active total is not negative, \<open>simulate_day\<close>
  returns, and in its result both wallet balances lie between 0 and the capacity, the
  start balance is the carried balance clipped to the capacity, and the end balance is
  \<open>min (start + limit, capacity)\<close> less the amount spent from the wallet.
\<close>

theorem wallet_bounds:
  assumes "0 \<le> wb" and "0 \<le> req"
    and "validate_bounds rule" and "SGMRule_post_init rule = Inr rule"
    and "\<forall>w c. wc = Some w \<and> model w = ''custom'' \<and> custom_multiplier w = Some c
           \<longrightarrow> 0 \<le> c"
    and "0 \<le> fst (calculate_active_manual_allowances
                    (case ma of None \<Rightarrow> [] | Some xs \<Rightarrow> xs) d)"
  shows "\<exists>r l' b'. simulate_day d bd req wb h rule wc rc cu ma l b m = Inr (r, l', b')
     \<and> 0 \<le> wallet_balance_start r \<and> wallet_balance_start r \<le> wallet_max_capacity r
     \<and> 0 \<le> wallet_balance_end r \<and> wallet_balance_end r \<le> wallet_max_capacity r
     \<and> wallet_max_capacity r =
          calculate_max_capacity
            (case wc of None \<Rightarrow> WalletConfig_default | Some w \<Rightarrow> w) (daily_spend_limit r)
     \<and> wallet_balance_start r = min wb (wallet_max_capacity r)
     \<and> wallet_balance_end r =
          min (wallet_balance_start r + daily_spend_limit r) (wallet_max_capacity r)
          - min (sgm_spend r)
              (min (wallet_balance_start r + daily_spend_limit r) (wallet_max_capacity r))"
proof -
  have v: "5 \<le> growth_percentage rule \<and> 20 \<le> min_growth_dollars rule"
    using assms(3,4) by (auto simp: SGMRule_post_init_def split: if_splits)
  then have "0 \<le> 1 + growth_percentage rule / 100" by simp
  from calc_returns [OF this] obtain dl l1 b1
    where c: "calculate_daily_spend_limit h rule d l b = Inr (dl, l1, b1)" by blast
  have dl: "0 \<le> dl" using calc_nonneg [OF _ c] v by simp
  from simulate_day_returns [OF c] obtain r
    where e: "simulate_day d bd req wb h rule wc rc cu ma l b m = Inr (r, l1, b1)" by blast
  note f = simulate_day_Inr [OF e refl]
  define cap where "cap = wallet_max_capacity r"
  define ws where "ws = wallet_balance_start r"
  define base where "base = min (ws + dl) cap"
  define act where "act = fst (calculate_active_manual_allowances
                   ((case ma of None \<Rightarrow> [] | Some xs \<Rightarrow> xs) @
                    (if m > 0 then [\<lparr>amount = m, created_day = d, expiration_days = None,
                        reason = ''Legacy compatibility''\<rparr>] else [])) d)"
  have lim: "daily_spend_limit r = dl" using f(1) c by simp
  have "0 \<le> calculate_max_capacity
      (case wc of None \<Rightarrow> WalletConfig_default | Some w \<Rightarrow> w) dl"
    using assms(5) by (intro capacity_nonneg [OF dl])
      (auto simp: WalletConfig_default_def split: option.splits)
  then have cap: "0 \<le> cap" unfolding cap_def f(10) lim .
  have ws_eq: "ws = min wb cap" unfolding ws_def cap_def by (rule f(11))
  have act: "0 \<le> act"
    unfolding act_def active_append using assms(6)
    by (simp add: active_single active_nil is_expired_def)
  have rs: "reserved_spend r \<le> req"
    unfolding f(5) using assms(2) by (auto simp: Let_def split: option.splits)
  have sgm: "sgm_spend r = min (req - reserved_spend r) (base + act)"
    unfolding base_def act_def ws_def cap_def lim [symmetric] by (rule f(12))
  have we: "wallet_balance_end r = base - min (sgm_spend r) base"
    unfolding base_def ws_def cap_def lim [symmetric] by (rule f(14))
  have ws0: "0 \<le> ws" unfolding ws_eq using assms(1) cap by simp
  have ws1: "ws \<le> cap" unfolding ws_eq by simp
  have b0: "0 \<le> base" unfolding base_def using ws0 dl cap by simp
  have b1: "base \<le> cap" unfolding base_def by simp
  have s0: "0 \<le> sgm_spend r" unfolding sgm using rs b0 act by simp
  have we0: "0 \<le> wallet_balance_end r" unfolding we by simp
  have we1: "wallet_balance_end r \<le> cap" unfolding we using s0 b0 b1 by simp
  show ?thesis
    using e ws0 ws1 we0 we1 f(10) f(11) f(14)
    unfolding ws_def cap_def by blast
qed

theorem wallet_bounds_witness:
  "\<exists>r l' b'. simulate_day 7 8 12 30 [5, 5, 5, 5, 5, 5, 5] test_rule None None 0
                 (Some [override_allowance]) 0 None 0 = Inr (r, l', b')
     \<and> 0 \<le> wallet_balance_start r \<and> wallet_balance_start r \<le> wallet_max_capacity r
     \<and> 0 \<le> wallet_balance_end r \<and> wallet_balance_end r \<le> wallet_max_capacity r
     \<and> wallet_balance_start r = min 30 (wallet_max_capacity r)"
proof -
  have a: "(0 :: real) \<le> 30" "(0 :: real) \<le> 12" by simp_all
  have v: "validate_bounds test_rule" by (simp add: test_rule_def)
  have p: "SGMRule_post_init test_rule = Inr test_rule"
    by (simp add: SGMRule_post_init_def test_rule_def)
  have w: "\<forall>w c. (None :: WalletConfig option) = Some w \<and> model w = ''custom''
             \<and> custom_multiplier w = Some c \<longrightarrow> 0 \<le> c"
    by simp
  have m: "0 \<le> fst (calculate_active_manual_allowances
                    (case Some [override_allowance] of None \<Rightarrow> [] | Some xs \<Rightarrow> xs) 7)"
    by (simp add: active_single is_expired_def override_allowance_def)
  from wallet_bounds [OF a v p w m, of 8 "[5, 5, 5, 5, 5, 5, 5]" None 0 0 None 0]
  show ?thesis by blast
qed

text \<open>
  The claim as written fails for a custom capacity multiplier of -1: the capacity is
  negative, and the start balance, clipped to it, is negative too.
\<close>

theorem negative_capacity_counterexample:
  "validate_bounds test_rule \<and> SGMRule_post_init test_rule = Inr test_rule
   \<and> \<not> isl day_with_negative_capacity
   \<and> wallet_balance_start (fst (projr day_with_negative_capacity)) < 0"
proof -
  have v: "validate_bounds test_rule" by (simp add: test_rule_def)
  have p: "SGMRule_post_init test_rule = Inr test_rule"
    by (simp add: SGMRule_post_init_def test_rule_def)
  show ?thesis
    using v p unfolding day_with_negative_capacity_eval by simp
qed

section \<open>The day's settlement in doubles\<close>

subsection \<open>Rounding\<close>

lemma round_half_even_error: "\<bar>of_int (round_half_even z) - z\<bar> \<le> 1 / 2"
proof -
  have "of_int \<lfloor>z\<rfloor> \<le> z" and "z < of_int \<lfloor>z\<rfloor> + 1" by linarith+
  then show ?thesis
    unfolding round_half_even_def Let_def by (auto simp: abs_le_iff)
qed

lemma double_round_eval:
  assumes "2 powr of_int k \<le> \<bar>x\<bar>" and "\<bar>x\<bar> < 2 powr of_int (k + 1)"
    and "u = 2 powr of_int (k - 52)"
  shows "double_round x = of_int (round_half_even (x / u)) * u"
proof -
  have "0 < (2 :: real) powr of_int k" by simp
  with assms(1) have p: "0 < \<bar>x\<bar>" by linarith
  have "\<lfloor>log 2 \<bar>x\<bar>\<rfloor> = k"
    using floor_log_eq_powr_iff [of "\<bar>x\<bar>" 2 k] p assms(1,2) by simp
  then show ?thesis
    using p unfolding double_round_def assms(3) Let_def by simp
qed

lemma double_round_error: "\<bar>double_round x - x\<bar> \<le> 1 / 2 ^ 53 * \<bar>x\<bar>"
proof (cases "x = 0")
  case True
  then show ?thesis by (simp add: double_round_def)
next
  case False
  define e where "e = \<lfloor>log 2 \<bar>x\<bar>\<rfloor>"
  define u :: real where "u = 2 powr of_int (e - 52)"
  have u: "0 < u" unfolding u_def by simp
  have d: "double_round x = of_int (round_half_even (x / u)) * u"
    using False unfolding double_round_def u_def e_def Let_def by simp
  have "double_round x - x = (of_int (round_half_even (x / u)) - x / u) * u"
    unfolding d using u by (simp add: field_simps)
  then have "\<bar>double_round x - x\<bar> = \<bar>of_int (round_half_even (x / u)) - x / u\<bar> * u"
    using u by (simp add: abs_mult)
  also have "\<dots> \<le> 1 / 2 * u"
    using round_half_even_error [of "x / u"] u by (intro mult_right_mono) simp_all
  also have "1 / 2 * u = 2 powr of_int e / 2 ^ 53"
  proof -
    have "u = 2 powr (of_int e - 52)" unfolding u_def by simp
    also have "\<dots> = 2 powr of_int e / 2 powr 52" by (rule powr_diff)
    also have "2 powr (52 :: real) = 2 ^ 52" by simp
    finally show ?thesis by simp
  qed
  also have "2 powr of_int e \<le> \<bar>x\<bar>"
  proof -
    have "of_int e \<le> log 2 \<bar>x\<bar>" unfolding e_def by simp
    then have "2 powr of_int e \<le> 2 powr log 2 \<bar>x\<bar>" by simp
    then show ?thesis using False by simp
  qed
  finally show ?thesis by (simp add: divide_right_mono)
qed

lemma double_506_32_eq: "double_506_32 = 8907275638008709 / 17592186044416"
  unfolding double_506_32_def
  by (subst double_round_eval [where k = 8 and u = "1 / 17592186044416"])
     (simp_all add: round_half_even_def powr_minus)

lemma double_47_47_eq: "double_47_47 = 1670202143056855 / 35184372088832"
  unfolding double_47_47_def
  by (subst double_round_eval [where k = 5 and u = "1 / 140737488355328"])
     (simp_all add: round_half_even_def powr_minus)

lemma available_506: "double_round (double_506_32 - double_47_47) =
    4036087283240141 / 8796093022208"
  unfolding double_506_32_eq double_47_47_eq
  by (subst double_round_eval [where k = 8 and u = "1 / 17592186044416"])
     (simp_all add: round_half_even_def powr_minus)

lemma used_506: "double_round (double_47_47 + 4036087283240141 / 8796093022208) =
    4453637819004355 / 8796093022208"
  unfolding double_47_47_eq
  by (subst double_round_eval [where k = 8 and u = "1 / 17592186044416"])
     (simp_all add: round_half_even_def powr_minus)

lemma double_9_10: "double_round (9 / 10) = 8106479329266893 / 9007199254740992"
  by (subst double_round_eval [where k = "- 1" and u = "1 / 9007199254740992"])
     (simp_all add: round_half_even_def powr_minus)

lemma double_3: "double_round 3 = 3"
  by (subst double_round_eval [where k = 1 and u = "1 / 2251799813685248"])
     (simp_all add: round_half_even_def powr_minus)

lemma double_6: "double_round 6 = 6"
  by (subst double_round_eval [where k = 2 and u = "1 / 1125899906842624"])
     (simp_all add: round_half_even_def powr_minus)

lemma double_just_below_30:
  "double_round (8444249301319679 / 281474976710656) = 8444249301319679 / 281474976710656"
  by (subst double_round_eval [where k = 4 and u = "1 / 281474976710656"])
     (simp_all add: round_half_even_def powr_minus)

lemma double_just_below_27:
  "double_round (8444249301319679 / 281474976710656 - 3) =
     7599824371187711 / 281474976710656"
  by (subst double_round_eval [where k = 4 and u = "1 / 281474976710656"])
     (simp_all add: round_half_even_def powr_minus)

lemma double_rate_at_threshold:
  "double_round (7599824371187711 / 281474976710656
                 / (8444249301319679 / 281474976710656)) =
     8106479329266893 / 9007199254740992"
  by (subst double_round_eval [where k = "- 1" and u = "1 / 9007199254740992"])
     (simp_all add: round_half_even_def powr_minus)

subsection \<open>Results of the rounded settlement\<close>

lemma bootstrap_fl_returns:
  assumes "length h < 7"
  shows "\<exists>dl. calculate_daily_spend_limit_fl A h rule d l b = Inr (dl, l, b)"
  unfolding calculate_daily_spend_limit_fl_def Let_def
  using assms by (simp only: no_recalc_in_bootstrap [OF assms] if_False) simp

lemma simulate_day_fl_returns:
  assumes "calculate_daily_spend_limit_fl A h rule d l b = Inr (dl, l1, b1)"
  shows "\<exists>r. simulate_day_fl A d bd req wb h rule wc rc cu ma l b m = Inr (r, l1, b1)"
  unfolding simulate_day_fl_def assms
  by (simp only: Let_def case_prod_beta sum.case prod.case fst_conv snd_conv sum.inject
        prod.inject simp_thms ex_simps)

text \<open>
  What a result of \<open>simulate_day_fl\<close> holds in the fields of steps 1, 4 and 5. \<open>R\<close> is
  the triple of step 1.
\<close>

lemma simulate_day_fl_Inr:
  assumes "simulate_day_fl A d bd req wb h rule wc rc cu ma l b m = Inr (r, l', b')"
    and R: "R =
        (case rc of
           None \<Rightarrow> (0, cu, 0)
         | Some c \<Rightarrow>
             if monthly_volume c > 0 then
               (let cumulative0 = (if bd = 1 \<and> d > 0 then 0 else cu);
                    reserved_available = max 0 (rnd A (monthly_volume c - cumulative0));
                    spend = min req reserved_available
                in (spend, rnd A (cumulative0 + spend), reserved_available))
             else (0, cu, 0))"
  shows "calculate_daily_spend_limit_fl A h rule d l b = Inr (daily_spend_limit r, l', b')"
    and "requested_spend r = req"
    and "reserved_spend r = fst R"
    and "cumulative_reserved_used r = fst (snd R)"
    and "wallet_max_capacity r =
        calculate_max_capacity_fl A
          (case wc of None \<Rightarrow> WalletConfig_default | Some w \<Rightarrow> w) (daily_spend_limit r)"
    and "wallet_balance_start r = min wb (wallet_max_capacity r)"
    and "sgm_spend r =
        min (rnd A (req - reserved_spend r))
          (rnd A (min (rnd A (wallet_balance_start r + daily_spend_limit r))
                      (wallet_max_capacity r)
           + fst (calculate_active_manual_allowances_fl A
                   (if m > 0
                    then (case ma of None \<Rightarrow> [] | Some xs \<Rightarrow> xs) @
                      [\<lparr>amount = m, created_day = d, expiration_days = None,
                        reason = ''Legacy compatibility''\<rparr>]
                    else (case ma of None \<Rightarrow> [] | Some xs \<Rightarrow> xs)) d)))"
    and "intervention_type r =
        (if rnd A (req - reserved_spend r) > 0
            \<and> sgm_spend r < rnd A (req - reserved_spend r) then
           (if rnd A (rnd A (rnd A (req - reserved_spend r) - sgm_spend r)
                      / rnd A (req - reserved_spend r)) \<ge> rnd A (9 / 10)
            then ''shutdown''
            else if rnd A (rnd A (rnd A (req - reserved_spend r) - sgm_spend r)
                      / rnd A (req - reserved_spend r)) > 0
            then ''throttle'' else ''none'')
         else ''none'')"
proof -
  obtain dl l1 b1
    where c: "calculate_daily_spend_limit_fl A h rule d l b = Inr (dl, l1, b1)"
  proof (cases "calculate_daily_spend_limit_fl A h rule d l b")
    case (Inl e)
    have "simulate_day_fl A d bd req wb h rule wc rc cu ma l b m = Inl e"
      unfolding simulate_day_fl_def Inl
      by (simp only: Let_def case_prod_beta sum.case)
    with assms(1) show ?thesis by simp
  next
    case (Inr p)
    then show ?thesis using that by (cases p) auto
  qed
  have r: "r = fst (projr (simulate_day_fl A d bd req wb h rule wc rc cu ma l b m))"
    and l: "l' = fst (snd (projr (simulate_day_fl A d bd req wb h rule wc rc cu ma l b m)))"
    and b: "b' = snd (snd (projr (simulate_day_fl A d bd req wb h rule wc rc cu ma l b m)))"
    unfolding assms(1) by simp_all
  show "calculate_daily_spend_limit_fl A h rule d l b = Inr (daily_spend_limit r, l', b')"
    and "requested_spend r = req"
    and "reserved_spend r = fst R"
    and "cumulative_reserved_used r = fst (snd R)"
    unfolding r l b unfolding simulate_day_fl_def R [symmetric] c
    by (simp_all only: Let_def case_prod_beta sum.case prod.case fst_conv snd_conv sum.sel
          DayResult.select_convs simp_thms)
  show "wallet_max_capacity r =
        calculate_max_capacity_fl A
          (case wc of None \<Rightarrow> WalletConfig_default | Some w \<Rightarrow> w) (daily_spend_limit r)"
    and "wallet_balance_start r = min wb (wallet_max_capacity r)"
    and "sgm_spend r =
        min (rnd A (req - reserved_spend r))
          (rnd A (min (rnd A (wallet_balance_start r + daily_spend_limit r))
                      (wallet_max_capacity r)
           + fst (calculate_active_manual_allowances_fl A
                   (if m > 0
                    then (case ma of None \<Rightarrow> [] | Some xs \<Rightarrow> xs) @
                      [\<lparr>amount = m, created_day = d, expiration_days = None,
                        reason = ''Legacy compatibility''\<rparr>]
                    else (case ma of None \<Rightarrow> [] | Some xs \<Rightarrow> xs)) d)))"
    and "intervention_type r =
        (if rnd A (req - reserved_spend r) > 0
            \<and> sgm_spend r < rnd A (req - reserved_spend r) then
           (if rnd A (rnd A (rnd A (req - reserved_spend r) - sgm_spend r)
                      / rnd A (req - reserved_spend r)) \<ge> rnd A (9 / 10)
            then ''shutdown''
            else if rnd A (rnd A (rnd A (req - reserved_spend r) - sgm_spend r)
                      / rnd A (req - reserved_spend r)) > 0
            then ''throttle'' else ''none'')
         else ''none'')"
    unfolding r l b unfolding simulate_day_fl_def R [symmetric] c
    by (simp_all only: Let_def case_prod_beta sum.case prod.case fst_conv snd_conv sum.sel
          DayResult.select_convs simp_thms)
qed

text \<open>With exact arithmetic the functions of this section are the ones above.\<close>

lemma allowances_loop_exact:
  "allowances_loop_fl exact_arith xs d acc = allowances_loop xs d acc"
  by (induction xs d acc rule: allowances_loop.induct) (simp_all add: exact_arith_def)

lemma calculate_daily_spend_limit_exact:
  "calculate_daily_spend_limit_fl exact_arith h rule d l b =
   calculate_daily_spend_limit h rule d l b"
  unfolding calculate_daily_spend_limit_fl_def calculate_daily_spend_limit_def exact_arith_def
  by (simp only: float_arith.select_convs Let_def)

lemma simulate_day_exact:
  "simulate_day_fl exact_arith d bd req wb h rule wc rc cu ma l b m =
   simulate_day d bd req wb h rule wc rc cu ma l b m"
proof -
  have a: "calculate_active_manual_allowances_fl exact_arith xs d =
      calculate_active_manual_allowances xs d" for xs
    by (simp add: calculate_active_manual_allowances_fl_def
        calculate_active_manual_allowances_def allowances_loop_exact)
  have r: "rnd exact_arith x = x" for x
    by (simp add: exact_arith_def)
  have c: "calculate_max_capacity_fl exact_arith w x = calculate_max_capacity w x" for w x
    unfolding calculate_max_capacity_fl_def calculate_max_capacity_def by (simp only: r)
  show ?thesis
    unfolding simulate_day_fl_def simulate_day_def
    by (simp only: a c r calculate_daily_spend_limit_exact)
qed

subsection \<open>Reserved volume and intervention\<close>

text \<open>
  Claim C7, as amended. In a result of \<open>simulate_day\<close>, computed in doubles, with a
  reserved configuration of positive monthly volume: on billing day 1 of a day after
  day 0 the cumulative usage counts from zero, otherwise from the carried value; the
  reserved spend is the smaller of the request and what is left of the monthly volume
  (the monthly volume less the starting usage, a double subtraction, or 0 if that is
  negative); the returned cumulative usage is the double sum of the starting usage and
  the reserved spend; the reserved spend is at most the request. The returned usage
  stays at most the monthly volume up to the rounding of those two operations: where
  every rounding has a relative error of at most \<open>eps\<close> and the starting usage \<open>u\<close> is at
  most the monthly volume \<open>v\<close>, it is at most \<open>(v + eps * (v - u)) * (1 + eps)\<close>, which
  is \<open>v\<close> in exact arithmetic. Without a reserved configuration the reserved spend is 0
  and the cumulative usage is the carried one.
\<close>

theorem reserved_volume_step:
  assumes "simulate_day_fl A d bd req wb h rule wc rc cu ma l b m = Inr (r, l', b')"
  shows "(\<forall>c. rc = Some c \<and> 0 < monthly_volume c \<longrightarrow>
            (bd = 1 \<and> 0 < d \<longrightarrow>
               reserved_spend r = min req (max 0 (rnd A (monthly_volume c - 0)))
               \<and> cumulative_reserved_used r = rnd A (0 + reserved_spend r)
               \<and> (\<forall>eps. 0 \<le> eps \<and> eps \<le> 1 \<and> (\<forall>x. \<bar>rnd A x - x\<bar> \<le> eps * \<bar>x\<bar>) \<longrightarrow>
                     cumulative_reserved_used r
                       \<le> (monthly_volume c + eps * (monthly_volume c - 0)) * (1 + eps)))
          \<and> (\<not> (bd = 1 \<and> 0 < d) \<longrightarrow>
               reserved_spend r = min req (max 0 (rnd A (monthly_volume c - cu)))
               \<and> cumulative_reserved_used r = rnd A (cu + reserved_spend r)
               \<and> (\<forall>eps. 0 \<le> eps \<and> eps \<le> 1 \<and> (\<forall>x. \<bar>rnd A x - x\<bar> \<le> eps * \<bar>x\<bar>)
                          \<and> cu \<le> monthly_volume c \<longrightarrow>
                     cumulative_reserved_used r
                       \<le> (monthly_volume c + eps * (monthly_volume c - cu)) * (1 + eps)))
          \<and> reserved_spend r \<le> req)
     \<and> (rc = None \<longrightarrow> reserved_spend r = 0 \<and> cumulative_reserved_used r = cu)"
proof -
  note f = simulate_day_fl_Inr [OF assms refl]
  have bound: "rnd A (u + min req (max 0 (rnd A (v - u)))) \<le> (v + eps * (v - u)) * (1 + eps)"
    if e: "0 \<le> eps" "eps \<le> 1" and a: "\<forall>x. \<bar>rnd A x - x\<bar> \<le> eps * \<bar>x\<bar>"
      and u: "u \<le> v" and v: "0 < v"
    for u v eps :: real
  proof -
    define s where "s = min req (max 0 (rnd A (v - u)))"
    have "\<bar>rnd A (v - u) - (v - u)\<bar> \<le> eps * \<bar>v - u\<bar>" using a by blast
    then have "rnd A (v - u) \<le> (v - u) + eps * (v - u)" using u by simp
    moreover have "0 \<le> (v - u) + eps * (v - u)" using u e(1) by simp
    ultimately have s: "s \<le> (v - u) + eps * (v - u)" unfolding s_def by simp
    then have t: "u + s \<le> v + eps * (v - u)" by simp
    have p: "0 \<le> v + eps * (v - u)" using u v e(1) by (simp add: add_nonneg_nonneg)
    have "\<bar>rnd A (u + s) - (u + s)\<bar> \<le> eps * \<bar>u + s\<bar>" using a by blast
    then have r: "rnd A (u + s) \<le> (u + s) + eps * \<bar>u + s\<bar>" by simp
    show ?thesis
    proof (cases "0 \<le> u + s")
      case True
      with r have "rnd A (u + s) \<le> (u + s) * (1 + eps)" by (simp add: algebra_simps)
      also have "\<dots> \<le> (v + eps * (v - u)) * (1 + eps)"
        using t e(1) by (intro mult_right_mono) simp_all
      finally show ?thesis unfolding s_def .
    next
      case False
      with r have "rnd A (u + s) \<le> (u + s) * (1 - eps)" by (simp add: algebra_simps)
      also have "\<dots> \<le> 0" using False e(2) by (simp add: mult_le_0_iff)
      also have "0 \<le> (v + eps * (v - u)) * (1 + eps)" using p e(1) by simp
      finally show ?thesis unfolding s_def .
    qed
  qed
  have le: "reserved_spend r \<le> req" if "rc = Some c" "0 < monthly_volume c" for c
    unfolding f(3) using that by (simp add: Let_def)
  have s1: "reserved_spend r = min req (max 0 (rnd A (monthly_volume c - 0)))"
    if "rc = Some c" "0 < monthly_volume c" "bd = 1 \<and> 0 < d" for c
    unfolding f(3) using that by (simp add: Let_def)
  have u1: "cumulative_reserved_used r = rnd A (0 + reserved_spend r)"
    if "rc = Some c" "0 < monthly_volume c" "bd = 1 \<and> 0 < d" for c
    unfolding f(3) f(4) using that by (simp add: Let_def)
  have s2: "reserved_spend r = min req (max 0 (rnd A (monthly_volume c - cu)))"
    if "rc = Some c" "0 < monthly_volume c" "\<not> (bd = 1 \<and> 0 < d)" for c
    unfolding f(3) using that by (auto simp: Let_def)
  have u2: "cumulative_reserved_used r = rnd A (cu + reserved_spend r)"
    if "rc = Some c" "0 < monthly_volume c" "\<not> (bd = 1 \<and> 0 < d)" for c
    unfolding f(3) f(4) using that by (auto simp: Let_def)
  have b1: "cumulative_reserved_used r
        \<le> (monthly_volume c + eps * (monthly_volume c - 0)) * (1 + eps)"
    if c: "rc = Some c" "0 < monthly_volume c" "bd = 1 \<and> 0 < d"
      and e: "0 \<le> eps \<and> eps \<le> 1 \<and> (\<forall>x. \<bar>rnd A x - x\<bar> \<le> eps * \<bar>x\<bar>)" for c eps
  proof -
    have "rnd A (0 + min req (max 0 (rnd A (monthly_volume c - 0))))
        \<le> (monthly_volume c + eps * (monthly_volume c - 0)) * (1 + eps)"
      using c(2) e by (intro bound) simp_all
    then show ?thesis unfolding u1 [OF c] s1 [OF c] .
  qed
  have b2: "cumulative_reserved_used r
        \<le> (monthly_volume c + eps * (monthly_volume c - cu)) * (1 + eps)"
    if c: "rc = Some c" "0 < monthly_volume c" "\<not> (bd = 1 \<and> 0 < d)"
      and e: "0 \<le> eps \<and> eps \<le> 1 \<and> (\<forall>x. \<bar>rnd A x - x\<bar> \<le> eps * \<bar>x\<bar>)
              \<and> cu \<le> monthly_volume c" for c eps
  proof -
    have "rnd A (cu + min req (max 0 (rnd A (monthly_volume c - cu))))
        \<le> (monthly_volume c + eps * (monthly_volume c - cu)) * (1 + eps)"
      using c(2) e by (intro bound) simp_all
    then show ?thesis unfolding u2 [OF c] s2 [OF c] .
  qed
  have n: "reserved_spend r = 0 \<and> cumulative_reserved_used r = cu" if "rc = None"
    unfolding f(3) f(4) using that by simp
  show ?thesis
    using le s1 u1 s2 u2 b1 b2 n by blast
qed

lemma day_over_quota_fields:
  "\<exists>r l' b'. day_over_quota = Inr (r, l', b')
     \<and> reserved_spend r = 4036087283240141 / 8796093022208
     \<and> cumulative_reserved_used r = 4453637819004355 / 8796093022208"
proof -
  have "length [50, 50 :: real] < 7" by simp
  from bootstrap_fl_returns [OF this] obtain dl where
    "calculate_daily_spend_limit_fl double_arith [50, 50] test_rule 2 0 None
       = Inr (dl, 0, None)"
    by blast
  from simulate_day_fl_returns [OF this] obtain r where
    e: "day_over_quota = Inr (r, 0, None)"
    unfolding day_over_quota_def by blast
  note f = simulate_day_fl_Inr [OF e [unfolded day_over_quota_def] refl]
  have p: "0 < double_506_32" unfolding double_506_32_eq by simp
  have n: "rnd double_arith = double_round" by (simp add: double_arith_def)
  have s: "reserved_spend r = 4036087283240141 / 8796093022208"
    unfolding f(3) using p by (simp add: reserved_506_def Let_def n available_506)
  have u: "cumulative_reserved_used r = 4453637819004355 / 8796093022208"
    unfolding f(4) using p by (simp add: reserved_506_def Let_def n available_506 used_506)
  show ?thesis using e s u by blast
qed

theorem reserved_volume_step_witness:
  "\<exists>r l' b'. day_over_quota = Inr (r, l', b')
     \<and> reserved_spend r = min 1000 (max 0 (double_round (double_506_32 - double_47_47)))
     \<and> cumulative_reserved_used r = double_round (double_47_47 + reserved_spend r)
     \<and> reserved_spend r \<le> 1000
     \<and> cumulative_reserved_used r
         \<le> (double_506_32 + 1 / 2 ^ 53 * (double_506_32 - double_47_47)) * (1 + 1 / 2 ^ 53)"
proof -
  from day_over_quota_fields obtain r l' b' where e: "day_over_quota = Inr (r, l', b')"
    by blast
  have p: "0 < monthly_volume reserved_506"
    unfolding reserved_506_def double_506_32_eq by simp
  have t: "\<not> ((12 :: int) = 1 \<and> (0 :: int) < 2)" by simp
  have a: "(0 :: real) \<le> 1 / 2 ^ 53 \<and> (1 :: real) / 2 ^ 53 \<le> 1
      \<and> (\<forall>x. \<bar>rnd double_arith x - x\<bar> \<le> 1 / 2 ^ 53 * \<bar>x\<bar>)
      \<and> double_47_47 \<le> monthly_volume reserved_506"
    using double_round_error
    by (simp add: double_arith_def reserved_506_def double_506_32_eq double_47_47_eq)
  have n: "rnd double_arith = double_round" by (simp add: double_arith_def)
  have v: "monthly_volume reserved_506 = double_506_32" by (simp add: reserved_506_def)
  from reserved_volume_step [OF e [unfolded day_over_quota_def]] p t a
  have "reserved_spend r = min 1000 (max 0 (rnd double_arith
            (monthly_volume reserved_506 - double_47_47)))
     \<and> cumulative_reserved_used r = rnd double_arith (double_47_47 + reserved_spend r)
     \<and> reserved_spend r \<le> 1000
     \<and> cumulative_reserved_used r
         \<le> (monthly_volume reserved_506
              + 1 / 2 ^ 53 * (monthly_volume reserved_506 - double_47_47)) * (1 + 1 / 2 ^ 53)"
    by blast
  then show ?thesis using e unfolding n v by blast
qed

text \<open>
  The claim as written fails in doubles: with a monthly volume of 506.32 of which 47.47
  is used and a request of 1000, the carried usage is below the monthly volume and the
  returned usage is 506.32000000000005, one unit in the last place above it.
\<close>

theorem reserved_usage_exceeds_volume_counterexample:
  "\<not> isl day_over_quota
   \<and> 0 < monthly_volume reserved_506
   \<and> double_47_47 \<le> monthly_volume reserved_506
   \<and> monthly_volume reserved_506 < cumulative_reserved_used (fst (projr day_over_quota))"
proof -
  from day_over_quota_fields obtain r l' b' where e: "day_over_quota = Inr (r, l', b')"
    and u: "cumulative_reserved_used r = 4453637819004355 / 8796093022208"
    by blast
  have v: "monthly_volume reserved_506 = 8907275638008709 / 17592186044416"
    by (simp add: reserved_506_def double_506_32_eq)
  show ?thesis
    unfolding e v double_47_47_eq by (simp add: u)
qed

text \<open>
  Claim C8. In a result of \<open>simulate_day\<close>, computed in doubles, with the remainder
  being the requested spend less the reserved spend and the rate being
  (remainder - SGM spend) / remainder: the intervention is "shutdown" when the
  remainder is positive, the SGM spend is below it and the rate is at least 0.9; it is
  "throttle" when the rate is above 0 and below 0.9; it is "none" in every other case.
  Nothing but the remainder and the SGM spend enters.
\<close>

theorem intervention_classification:
  assumes "simulate_day_fl A d bd req wb h rule wc rc cu ma l b m = Inr (r, l', b')"
  shows "(0 < non_reserved_remainder A r \<and> sgm_spend r < non_reserved_remainder A r
           \<and> rnd A (9 / 10) \<le> rejection_rate A r
          \<longrightarrow> intervention_type r = ''shutdown'')
     \<and> (0 < non_reserved_remainder A r \<and> sgm_spend r < non_reserved_remainder A r
           \<and> 0 < rejection_rate A r \<and> rejection_rate A r < rnd A (9 / 10)
          \<longrightarrow> intervention_type r = ''throttle'')
     \<and> (\<not> (0 < non_reserved_remainder A r \<and> sgm_spend r < non_reserved_remainder A r
              \<and> (0 < rejection_rate A r \<or> rnd A (9 / 10) \<le> rejection_rate A r))
          \<longrightarrow> intervention_type r = ''none'')"
proof -
  note f = simulate_day_fl_Inr [OF assms refl]
  define rem where "rem = non_reserved_remainder A r"
  define rate where "rate = rejection_rate A r"
  have i: "intervention_type r =
        (if rem > 0 \<and> sgm_spend r < rem then
           (if rate \<ge> rnd A (9 / 10) then ''shutdown''
            else if rate > 0 then ''throttle'' else ''none'')
         else ''none'')"
    unfolding rem_def rate_def rejection_rate_def non_reserved_remainder_def f(2)
    by (rule f(8))
  show ?thesis
    unfolding rem_def [symmetric] rate_def [symmetric] i
    by auto
qed

theorem intervention_classification_witness:
  "\<exists>r. day_at_threshold = Inr (r, 0, None)
     \<and> non_reserved_remainder double_arith r = 8444249301319679 / 281474976710656
     \<and> sgm_spend r = 3
     \<and> rejection_rate double_arith r = rnd double_arith (9 / 10)
     \<and> intervention_type r = ''shutdown''"
proof -
  have n: "rnd double_arith = double_round" by (simp add: double_arith_def)
  have c: "calculate_daily_spend_limit_fl double_arith [] rule_min21 0 0 None
      = Inr (3, 0, None)"
    unfolding calculate_daily_spend_limit_fl_def Let_def
    by (simp add: should_recalc_def rule_min21_def n double_3)
  from simulate_day_fl_returns [OF c] obtain r where
    e: "day_at_threshold = Inr (r, 0, None)"
    unfolding day_at_threshold_def by blast
  note f = simulate_day_fl_Inr [OF e [unfolded day_at_threshold_def] refl]
  have dl: "daily_spend_limit r = 3" using f(1) c by simp
  have q: "requested_spend r = 8444249301319679 / 281474976710656" by (rule f(2))
  have rs: "reserved_spend r = 0" unfolding f(3) by simp
  have cap: "wallet_max_capacity r = 6"
    unfolding f(5) dl
    by (simp add: calculate_max_capacity_fl_def WalletConfig_default_def n double_6)
  have ws: "wallet_balance_start r = 0" unfolding f(6) cap by simp
  have rem: "non_reserved_remainder double_arith r = 8444249301319679 / 281474976710656"
    unfolding non_reserved_remainder_def q rs n by (simp add: double_just_below_30)
  have sgm: "sgm_spend r = 3"
    unfolding f(7) rs ws dl cap n
    by (simp add: double_just_below_30 double_3 calculate_active_manual_allowances_fl_def)
  have rate: "rejection_rate double_arith r = rnd double_arith (9 / 10)"
    unfolding rejection_rate_def rem sgm n
    by (simp only: double_just_below_27 double_rate_at_threshold double_9_10)
  have h: "0 < non_reserved_remainder double_arith r
      \<and> sgm_spend r < non_reserved_remainder double_arith r
      \<and> rnd double_arith (9 / 10) \<le> rejection_rate double_arith r"
    unfolding rem sgm rate by simp
  from intervention_classification [OF e [unfolded day_at_threshold_def]] h
  have i: "intervention_type r = ''shutdown''" by blast
  show ?thesis using e rem sgm rate i by blast
qed

end
